theory Spec2Isabelle
  imports Complex_Main "HOL-Library.Multiset"
begin

section \<open>Strings\<close>

text \<open>
  A Python string is a sequence of Unicode code points.  It is modelled as a HOL string, a
  list of characters, and a character is read as the code point of its number, so the
  model covers the code points below 256.  On these, the case mapping and the character
  classes below are those of Python 3, written as tables: \<^verbatim>\<open>str.lower\<close> maps \<^verbatim>\<open>A-Z\<close> and
  the capital letters 0xC0-0xD6 and 0xD8-0xDE to the letter 32 code points above and leaves
  every other character alone; \<^verbatim>\<open>\w\<close> in a pattern over \<^verbatim>\<open>str\<close> matches the underscore
  and every alphanumeric character, among them the letters and digits from 0xAA to 0xFF;
  \<^verbatim>\<open>\s\<close>, \<^verbatim>\<open>str.strip\<close> and \<^verbatim>\<open>str.split\<close> without argument use the white space of
  \<^verbatim>\<open>str.isspace\<close>, the code points 9-13, 28-32, 0x85 and 0xA0.
\<close>

definition capital_letters :: string where
  "capital_letters =
     ''ABCDEFGHIJKLMNOPQRSTUVWXYZ'' @
     [
        CHR 0xC0, CHR 0xC1, CHR 0xC2, CHR 0xC3, CHR 0xC4, CHR 0xC5, CHR 0xC6, CHR 0xC7,
        CHR 0xC8, CHR 0xC9, CHR 0xCA, CHR 0xCB, CHR 0xCC, CHR 0xCD, CHR 0xCE, CHR 0xCF,
        CHR 0xD0, CHR 0xD1, CHR 0xD2, CHR 0xD3, CHR 0xD4, CHR 0xD5, CHR 0xD6, CHR 0xD8,
        CHR 0xD9, CHR 0xDA, CHR 0xDB, CHR 0xDC, CHR 0xDD, CHR 0xDE]"

definition small_letters :: string where
  "small_letters =
     ''abcdefghijklmnopqrstuvwxyz'' @
     [
        CHR 0xE0, CHR 0xE1, CHR 0xE2, CHR 0xE3, CHR 0xE4, CHR 0xE5, CHR 0xE6, CHR 0xE7,
        CHR 0xE8, CHR 0xE9, CHR 0xEA, CHR 0xEB, CHR 0xEC, CHR 0xED, CHR 0xEE, CHR 0xEF,
        CHR 0xF0, CHR 0xF1, CHR 0xF2, CHR 0xF3, CHR 0xF4, CHR 0xF5, CHR 0xF6, CHR 0xF8,
        CHR 0xF9, CHR 0xFA, CHR 0xFB, CHR 0xFC, CHR 0xFD, CHR 0xFE]"

definition lower_char :: "char \<Rightarrow> char" where
  "lower_char c =
     (case map_of (zip capital_letters small_letters) c of Some d \<Rightarrow> d | None \<Rightarrow> c)"

definition lower :: "string \<Rightarrow> string" where
  "lower s = map lower_char s"

definition word_characters :: string where
  "word_characters =
     ''0123456789ABCDEFGHIJKLMNOPQRSTUVWXYZ_abcdefghijklmnopqrstuvwxyz'' @
     [
        CHR 0xAA, CHR 0xB2, CHR 0xB3, CHR 0xB5, CHR 0xB9, CHR 0xBA, CHR 0xBC, CHR 0xBD,
        CHR 0xBE, CHR 0xC0, CHR 0xC1, CHR 0xC2, CHR 0xC3, CHR 0xC4, CHR 0xC5, CHR 0xC6,
        CHR 0xC7, CHR 0xC8, CHR 0xC9, CHR 0xCA, CHR 0xCB, CHR 0xCC, CHR 0xCD, CHR 0xCE,
        CHR 0xCF, CHR 0xD0, CHR 0xD1, CHR 0xD2, CHR 0xD3, CHR 0xD4, CHR 0xD5, CHR 0xD6,
        CHR 0xD8, CHR 0xD9, CHR 0xDA, CHR 0xDB, CHR 0xDC, CHR 0xDD, CHR 0xDE, CHR 0xDF,
        CHR 0xE0, CHR 0xE1, CHR 0xE2, CHR 0xE3, CHR 0xE4, CHR 0xE5, CHR 0xE6, CHR 0xE7,
        CHR 0xE8, CHR 0xE9, CHR 0xEA, CHR 0xEB, CHR 0xEC, CHR 0xED, CHR 0xEE, CHR 0xEF,
        CHR 0xF0, CHR 0xF1, CHR 0xF2, CHR 0xF3, CHR 0xF4, CHR 0xF5, CHR 0xF6, CHR 0xF8,
        CHR 0xF9, CHR 0xFA, CHR 0xFB, CHR 0xFC, CHR 0xFD, CHR 0xFE, CHR 0xFF]"

definition is_word :: "char \<Rightarrow> bool" where
  "is_word c \<longleftrightarrow> c \<in> set word_characters"

definition space_characters :: string where
  "space_characters =
     [
        CHR 0x09, CHR 0x0A, CHR 0x0B, CHR 0x0C, CHR 0x0D, CHR 0x1C, CHR 0x1D, CHR 0x1E,
        CHR 0x1F, CHR 0x20, CHR 0x85, CHR 0xA0]"

definition is_space :: "char \<Rightarrow> bool" where
  "is_space c \<longleftrightarrow> c \<in> set space_characters"

text \<open>\<^verbatim>\<open>s.startswith(p)\<close> and the substring test \<^verbatim>\<open>needle in hay\<close>.\<close>

fun starts_with :: "string \<Rightarrow> string \<Rightarrow> bool" where
  "starts_with [] s = True"
| "starts_with (p # ps) [] = False"
| "starts_with (p # ps) (c # cs) = (p = c \<and> starts_with ps cs)"

fun contains :: "string \<Rightarrow> string \<Rightarrow> bool" where
  "contains needle [] = (needle = [])"
| "contains needle (c # cs) = (starts_with needle (c # cs) \<or> contains needle cs)"


section \<open>Configuration (config.py)\<close>

datatype ArticleCategory = GEOPOLITICS | DEFENSE | CYBER | FINANCE

fun category_value :: "ArticleCategory \<Rightarrow> string" where
  "category_value GEOPOLITICS = ''geopolitics''"
| "category_value DEFENSE = ''defense''"
| "category_value CYBER = ''cyber''"
| "category_value FINANCE = ''finance''"

text \<open>The fields of \<^verbatim>\<open>Settings\<close> that the modelled functions read.\<close>

record Settings =
  strapi_url :: string
  strapi_api_token :: string
  instagram_enabled :: bool
  max_articles_per_run :: nat
  min_relevance_score :: rat
  article_min_words :: int

text \<open>
  The keyword table is a Python dict from the category's value to a list of keywords; the
  scoring function reads it with \<^verbatim>\<open>.get(key, [])\<close>.  The functions below take the table as
  an argument; \<open>RELEVANCE_KEYWORDS\<close> is the table of config.py.
\<close>

type_synonym keyword_table = "(string \<times> string list) list"

definition RELEVANCE_KEYWORDS :: keyword_table where
  "RELEVANCE_KEYWORDS =
     [(''geopolitics'',
        [''sovereignty'', ''multilateral'', ''bilateral'', ''treaty'', ''sanctions'',
         ''diplomatic'', ''territorial'', ''strategic partnership'', ''alliance'',
         ''geopolitical'', ''foreign policy'', ''international relations'']),
      (''defense'',
        [''kinetic'', ''military'', ''defense'', ''armed forces'', ''weapons system'',
         ''deterrence'', ''force projection'', ''strategic assets'', ''NATO'',
         ''joint exercises'', ''combat'', ''operations'', ''security cooperation'']),
      (''cyber'',
        [''APT'', ''threat actor'', ''vulnerability'', ''cyber attack'', ''malware'',
         ''ransomware'', ''threat landscape'', ''attribution'', ''cyber espionage'',
         ''zero-day'', ''intrusion'', ''breach'', ''cybersecurity'']),
      (''finance'',
        [''fiscal'', ''monetary policy'', ''sovereign debt'', ''liquidity'',
         ''central bank'', ''interest rate'', ''inflation'', ''GDP'', ''bond yield'',
         ''market volatility'', ''financial stability'', ''economic indicator''])]"

definition dict_get :: "('k \<times> 'v) list \<Rightarrow> 'k \<Rightarrow> 'v \<Rightarrow> 'v" where
  "dict_get d k dflt = (case map_of d k of Some v \<Rightarrow> v | None \<Rightarrow> dflt)"


section \<open>Relevance filter (modules/ingestion.py)\<close>

text \<open>
  \<^verbatim>\<open>NewsArticle\<close>.  The relevance score is a Python float obtained by dividing two small
  integers and is only compared; it is modelled as the exact rational.
\<close>

record NewsArticle =
  na_title :: string
  na_content :: string
  na_url :: string
  na_source :: string
  na_category :: ArticleCategory
  na_published_date :: nat
  na_relevance_score :: rat

text \<open>The loop of \<^verbatim>\<open>calculate_relevance_score\<close> that counts the keywords found in the text.\<close>

fun count_matches :: "string list \<Rightarrow> string \<Rightarrow> nat \<Rightarrow> nat" where
  "count_matches [] text matches = matches"
| "count_matches (keyword # rest) text matches =
     (if contains (lower keyword) text
      then count_matches rest text (matches + 1)
      else count_matches rest text matches)"

definition combined_text :: "NewsArticle \<Rightarrow> string" where
  "combined_text article = lower (na_title article @ '' '' @ na_content article)"

definition calculate_relevance_score :: "keyword_table \<Rightarrow> NewsArticle \<Rightarrow> rat" where
  "calculate_relevance_score kw article =
     (let category_keywords = dict_get kw (category_value (na_category article)) [];
          text = combined_text article;
          matches = count_matches category_keywords text 0
      in if category_keywords \<noteq> []
         then min (of_nat matches / of_nat (length category_keywords)) 1
         else 0)"

text \<open>
  \<^verbatim>\<open>filter_content\<close>: the loop stores the score into every article it visits, drops the
  articles under the minimum score or with fewer than 100 characters of content, and the
  survivors are sorted by \<^verbatim>\<open>list.sort(key=score, reverse=True)\<close>, a stable sort.
\<close>

fun filter_loop :: "keyword_table \<Rightarrow> rat \<Rightarrow> NewsArticle list \<Rightarrow> NewsArticle list" where
  "filter_loop kw min_score [] = []"
| "filter_loop kw min_score (article # rest) =
     (let article' = article\<lparr>na_relevance_score := calculate_relevance_score kw article\<rparr>
      in if na_relevance_score article' < min_score then filter_loop kw min_score rest
         else if length (na_content article') < 100 then filter_loop kw min_score rest
         else article' # filter_loop kw min_score rest)"

definition filter_content ::
  "Settings \<Rightarrow> keyword_table \<Rightarrow> NewsArticle list \<Rightarrow> rat option \<Rightarrow> NewsArticle list" where
  "filter_content settings kw articles min_score =
     (let min_score' = (case min_score of None \<Rightarrow> min_relevance_score settings | Some m \<Rightarrow> m);
          filtered = filter_loop kw min_score' articles
      in sort_key (\<lambda>x. - na_relevance_score x) filtered)"

text \<open>\<^verbatim>\<open>re.sub(r'[^\w\s]', '', title.lower())\<close>\<close>

definition normalize_title :: "string \<Rightarrow> string" where
  "normalize_title t = filter (\<lambda>c. is_word c \<or> is_space c) (lower t)"

fun deduplicate_loop ::
  "string set \<Rightarrow> NewsArticle list \<Rightarrow> NewsArticle list \<Rightarrow> NewsArticle list" where
  "deduplicate_loop seen_titles unique [] = unique"
| "deduplicate_loop seen_titles unique (article # rest) =
     (let normalized = normalize_title (na_title article)
      in if normalized \<notin> seen_titles
         then deduplicate_loop (insert normalized seen_titles) (unique @ [article]) rest
         else deduplicate_loop seen_titles unique rest)"

definition deduplicate :: "NewsArticle list \<Rightarrow> NewsArticle list" where
  "deduplicate articles = deduplicate_loop {} [] articles"

text \<open>
  The relevance filter as \<^verbatim>\<open>fetch_all_sources\<close> applies it to the fetched articles:
  \<^verbatim>\<open>deduplicate\<close>, then \<^verbatim>\<open>filter_content\<close> with the configured minimum score.
\<close>

definition relevance_filter ::
  "Settings \<Rightarrow> keyword_table \<Rightarrow> NewsArticle list \<Rightarrow> rat option \<Rightarrow> NewsArticle list" where
  "relevance_filter settings kw all_articles min_score =
     filter_content settings kw (deduplicate all_articles) min_score"


section \<open>Errors and JSON values\<close>

text \<open>
  Exceptions are values.  Each carries the message that \<^verbatim>\<open>str(e)\<close> returns.  \<open>ServiceError\<close>
  stands for whatever an external library raises (the generation client, \<^verbatim>\<open>requests\<close>, the
  social-media client).
\<close>

datatype error =
    ValueError string
  | TypeError string
  | KeyError string
  | IndexError string
  | AttributeError string
  | IntegrityError string
  | ServiceError string

fun error_str :: "error \<Rightarrow> string" where
  "error_str (ValueError m) = m"
| "error_str (TypeError m) = m"
| "error_str (KeyError m) = m"
| "error_str (IndexError m) = m"
| "error_str (AttributeError m) = m"
| "error_str (IntegrityError m) = m"
| "error_str (ServiceError m) = m"

datatype json =
    JNull
  | JBool bool
  | JNum rat
  | JStr string
  | JArr "json list"
  | JObj "(string \<times> json) list"

text \<open>Python truthiness of a decoded JSON value (\<^verbatim>\<open>if platform_data:\<close>).\<close>

fun truthy :: "json \<Rightarrow> bool" where
  "truthy JNull = False"
| "truthy (JBool b) = b"
| "truthy (JNum n) = (n \<noteq> 0)"
| "truthy (JStr s) = (s \<noteq> [])"
| "truthy (JArr xs) = (xs \<noteq> [])"
| "truthy (JObj kv) = (kv \<noteq> [])"


section \<open>Loading the configuration (config.py)\<close>

text \<open>
  \<^verbatim>\<open>settings = get_settings()\<close> runs when config.py is imported and nothing assigns to
  the settings afterwards, so the functions of the program only ever see settings that
  passed the validation of the \<^verbatim>\<open>Settings\<close> class.  The environment holds the values read
  for the fields, \<open>None\<close> for a variable that is not set.  The model validates the required
  keys and the fields of the record above: a required string must be set and have its
  minimum length (30 characters for the three API keys and the CMS token, 10 for the
  database URL), \<^verbatim>\<open>max_articles_per_run\<close> lies in 1..20 and \<^verbatim>\<open>min_relevance_score\<close> in
  0..1.  The validators of the social-media fields concern fields this record does not
  carry; they can only make more environments fail.
\<close>

record environment =
  env_gemini_api_key :: "string option"
  env_news_api_key :: "string option"
  env_database_url :: "string option"
  env_strapi_url :: "string option"
  env_strapi_api_token :: "string option"
  env_instagram_enabled :: "bool option"
  env_max_articles_per_run :: "int option"
  env_min_relevance_score :: "rat option"
  env_article_min_words :: "int option"

definition required_field :: "string \<Rightarrow> nat \<Rightarrow> string option \<Rightarrow> error + string" where
  "required_field name min_length v =
     (case v of
        None \<Rightarrow> Inl (ValueError (name @ '': Field required''))
      | Some s \<Rightarrow>
          (if length s < min_length
           then Inl (ValueError (name @ '': String should have more characters''))
           else Inr s))"

definition field_default :: "'a option \<Rightarrow> 'a \<Rightarrow> 'a" where
  "field_default v dflt = (case v of None \<Rightarrow> dflt | Some x \<Rightarrow> x)"

definition get_settings :: "environment \<Rightarrow> error + Settings" where
  "get_settings env =
     (case required_field ''gemini_api_key'' 30 (env_gemini_api_key env) of
        Inl e \<Rightarrow> Inl e
      | Inr gemini_api_key \<Rightarrow>
     (case required_field ''news_api_key'' 30 (env_news_api_key env) of
        Inl e \<Rightarrow> Inl e
      | Inr news_api_key \<Rightarrow>
     (case required_field ''database_url'' 10 (env_database_url env) of
        Inl e \<Rightarrow> Inl e
      | Inr database_url \<Rightarrow>
     (case required_field ''strapi_api_token'' 30 (env_strapi_api_token env) of
        Inl e \<Rightarrow> Inl e
      | Inr token \<Rightarrow>
     (let n = field_default (env_max_articles_per_run env) 5;
          s = field_default (env_min_relevance_score env) (7 / 10)
      in if n < 1 \<or> 20 < n
         then Inl (ValueError ''max_articles_per_run: out of range'')
         else if s < 0 \<or> 1 < s
         then Inl (ValueError ''min_relevance_score: out of range'')
         else Inr \<lparr>strapi_url = field_default (env_strapi_url env) ''http://localhost:1337'',
                   strapi_api_token = token,
                   instagram_enabled = field_default (env_instagram_enabled env) True,
                   max_articles_per_run = nat n,
                   min_relevance_score = s,
                   article_min_words = field_default (env_article_min_words env) 1500\<rparr>)))))"


section \<open>Schema (models/schemas.py)\<close>

datatype ArticleStatus = DRAFT | PUBLISHED | ARCHIVED | FAILED

datatype PublishPlatform = STRAPI | INSTAGRAM

datatype PublishStatus = PENDING | PROCESSING | COMPLETED | FAILED

fun platform_value :: "PublishPlatform \<Rightarrow> string" where
  "platform_value STRAPI = ''strapi''"
| "platform_value INSTAGRAM = ''instagram''"

text \<open>Time stamps are natural numbers; \<open>None\<close> is SQL NULL.\<close>

record Article =
  a_id :: nat
  a_title :: string
  a_content :: string
  a_summary :: string
  a_category :: ArticleCategory
  a_source_url :: "string option"
  a_source_name :: "string option"
  a_raw_content :: "string option"
  a_word_count :: "nat option"
  a_relevance_score :: "rat option"
  a_status :: ArticleStatus
  a_created_at :: nat
  a_published_at :: "nat option"
  a_updated_at :: nat

record Metadata =
  m_id :: nat
  m_article_id :: nat
  m_tags :: "string list option"
  m_keywords :: "string list option"
  m_seo_description :: "string option"
  m_entities :: "json option"
  m_instagram_caption :: "string option"
  m_instagram_hashtags :: "string list option"
  m_created_at :: nat

record PublishQueue =
  pq_id :: nat
  pq_article_id :: nat
  pq_platform :: PublishPlatform
  pq_status :: PublishStatus
  pq_scheduled_time :: "nat option"
  pq_published_time :: "nat option"
  pq_retry_count :: nat
  pq_error_message :: "string option"
  pq_platform_data :: "json option"
  pq_created_at :: nat
  pq_updated_at :: nat

record SourceCache =
  sc_id :: nat
  sc_source_url :: string
  sc_content_hash :: string
  sc_first_seen :: nat
  sc_processed :: "nat option"
  sc_skipped :: nat

text \<open>
  The store: one list of rows per table, in insertion order.  The schema is the PostgreSQL
  one of schemas.py; the model keeps its primary keys (a fresh id for every insert), the two
  unique columns of \<^verbatim>\<open>source_cache\<close> and the foreign keys from \<^verbatim>\<open>metadata\<close> and
  \<^verbatim>\<open>publish_queue\<close> to \<^verbatim>\<open>articles\<close>.  Column length limits are not modelled.
\<close>

record database =
  articles :: "Article list"
  metadata_rows :: "Metadata list"
  publish_queue :: "PublishQueue list"
  source_cache :: "SourceCache list"

definition empty_database :: database where
  "empty_database = \<lparr>articles = [], metadata_rows = [], publish_queue = [], source_cache = []\<rparr>"

definition fresh_id :: "nat list \<Rightarrow> nat" where
  "fresh_id ids = Suc (foldr max ids 0)"


section \<open>Persistence layer (modules/database.py)\<close>

text \<open>
  \<^verbatim>\<open>hashlib.sha256\<close> is an argument \<open>sha256\<close> of the functions that hash; the clock
  \<^verbatim>\<open>datetime.utcnow()\<close> is an argument \<open>now\<close>.  A function that can raise after it has
  committed returns its result or error together with the store.
\<close>

definition create_content_hash :: "(string \<Rightarrow> string) \<Rightarrow> string \<Rightarrow> string" where
  "create_content_hash sha256 content = sha256 content"

definition is_duplicate :: "(string \<Rightarrow> string) \<Rightarrow> database \<Rightarrow> string \<Rightarrow> string \<Rightarrow> bool" where
  "is_duplicate sha256 db url content =
     (let content_hash = create_content_hash sha256 content;
          url_exists = find (\<lambda>r. sc_source_url r = url) (source_cache db)
      in if url_exists \<noteq> None then True
         else (let hash_exists = find (\<lambda>r. sc_content_hash r = content_hash) (source_cache db)
               in if hash_exists \<noteq> None then True else False))"

text \<open>The truth value of an optional string argument: \<^verbatim>\<open>None\<close> and \<^verbatim>\<open>''\<close> are false.\<close>

fun str_truthy :: "string option \<Rightarrow> bool" where
  "str_truthy None = False"
| "str_truthy (Some s) = (s \<noteq> [])"

definition insert_source_cache ::
  "nat \<Rightarrow> database \<Rightarrow> string \<Rightarrow> string \<Rightarrow> error + database" where
  "insert_source_cache now db url content_hash =
     (if url \<in> set (map sc_source_url (source_cache db))
      then Inl (IntegrityError ''duplicate key value violates unique constraint on source_url'')
      else if content_hash \<in> set (map sc_content_hash (source_cache db))
      then Inl (IntegrityError ''duplicate key value violates unique constraint on content_hash'')
      else Inr (db\<lparr>source_cache := source_cache db @
                  [\<lparr>sc_id = fresh_id (map sc_id (source_cache db)), sc_source_url = url,
                    sc_content_hash = content_hash, sc_first_seen = now,
                    sc_processed = None, sc_skipped = 0\<rparr>]\<rparr>))"

definition save_article ::
  "(string \<Rightarrow> string) \<Rightarrow> nat \<Rightarrow> database \<Rightarrow> string \<Rightarrow> string \<Rightarrow> string \<Rightarrow> ArticleCategory \<Rightarrow>
   string option \<Rightarrow> string option \<Rightarrow> string option \<Rightarrow> nat option \<Rightarrow> rat option \<Rightarrow>
   (error + Article) \<times> database" where
  "save_article sha256 now db title content summary category source_url source_name
       raw_content word_count relevance_score =
     (let article = \<lparr>a_id = fresh_id (map a_id (articles db)), a_title = title,
            a_content = content, a_summary = summary, a_category = category,
            a_source_url = source_url, a_source_name = source_name,
            a_raw_content = raw_content, a_word_count = word_count,
            a_relevance_score = relevance_score, a_status = DRAFT,
            a_created_at = now, a_published_at = None, a_updated_at = now\<rparr>;
          db1 = db\<lparr>articles := articles db @ [article]\<rparr>
      in if str_truthy source_url \<and> content \<noteq> []
         then (case insert_source_cache now db1 (the source_url)
                      (create_content_hash sha256 content) of
                 Inl e \<Rightarrow> (Inl e, db1)
               | Inr db2 \<Rightarrow> (Inr article, db2))
         else (Inr article, db1))"

definition save_metadata ::
  "nat \<Rightarrow> database \<Rightarrow> nat \<Rightarrow> string list option \<Rightarrow> string list option \<Rightarrow> string option \<Rightarrow>
   json option \<Rightarrow> string option \<Rightarrow> string list option \<Rightarrow> (error + Metadata) \<times> database" where
  "save_metadata now db article_id tags keywords seo_description entities
       instagram_caption instagram_hashtags =
     (let metadata = \<lparr>m_id = fresh_id (map m_id (metadata_rows db)), m_article_id = article_id,
            m_tags = tags, m_keywords = keywords, m_seo_description = seo_description,
            m_entities = entities, m_instagram_caption = instagram_caption,
            m_instagram_hashtags = instagram_hashtags, m_created_at = now\<rparr>
      in if article_id \<notin> set (map a_id (articles db))
         then (Inl (IntegrityError ''violates foreign key constraint on article_id''), db)
         else (Inr metadata, db\<lparr>metadata_rows := metadata_rows db @ [metadata]\<rparr>))"

definition add_to_publish_queue ::
  "nat \<Rightarrow> database \<Rightarrow> nat \<Rightarrow> PublishPlatform \<Rightarrow> nat option \<Rightarrow>
   (error + PublishQueue) \<times> database" where
  "add_to_publish_queue now db article_id platform scheduled_time =
     (let queue_entry = \<lparr>pq_id = fresh_id (map pq_id (publish_queue db)),
            pq_article_id = article_id, pq_platform = platform,
            pq_status = PENDING, pq_scheduled_time = scheduled_time,
            pq_published_time = None, pq_retry_count = 0, pq_error_message = None,
            pq_platform_data = None, pq_created_at = now, pq_updated_at = now\<rparr>
      in if article_id \<notin> set (map a_id (articles db))
         then (Inl (IntegrityError ''violates foreign key constraint on article_id''), db)
         else (Inr queue_entry, db\<lparr>publish_queue := publish_queue db @ [queue_entry]\<rparr>))"

definition get_pending_publications ::
  "database \<Rightarrow> PublishPlatform option \<Rightarrow> PublishQueue list" where
  "get_pending_publications db platform =
     (let query = filter (\<lambda>q. pq_status q = PENDING) (publish_queue db)
      in case platform of
           Some p \<Rightarrow> filter (\<lambda>q. pq_platform q = p) query
         | None \<Rightarrow> query)"

text \<open>
  \<^verbatim>\<open>update_publish_status\<close> loads the row with the given id, assigns its fields and commits;
  the commit writes the row back under its primary key.
\<close>

definition update_publish_status ::
  "nat \<Rightarrow> database \<Rightarrow> nat \<Rightarrow> PublishStatus \<Rightarrow> string option \<Rightarrow> json option \<Rightarrow>
   error + database" where
  "update_publish_status now db queue_id status error_message platform_data =
     (case find (\<lambda>q. pq_id q = queue_id) (publish_queue db) of
        None \<Rightarrow> Inl (ValueError (''Queue entry not found''))
      | Some queue_entry \<Rightarrow>
          (let e1 = queue_entry\<lparr>pq_status := status, pq_updated_at := now\<rparr>;
               e2 = (if status = COMPLETED then e1\<lparr>pq_published_time := Some now\<rparr> else e1);
               e3 = (if status = PublishStatus.FAILED
                     then e2\<lparr>pq_retry_count := pq_retry_count e2 + 1,
                             pq_error_message := error_message\<rparr>
                     else e2);
               e4 = (case platform_data of
                       Some d \<Rightarrow> (if truthy d then e3\<lparr>pq_platform_data := Some d\<rparr> else e3)
                     | None \<Rightarrow> e3)
           in Inr (db\<lparr>publish_queue :=
                        map (\<lambda>q. if pq_id q = queue_id then e4 else q) (publish_queue db)\<rparr>)))"

definition mark_article_published :: "nat \<Rightarrow> database \<Rightarrow> nat \<Rightarrow> error + database" where
  "mark_article_published now db article_id =
     (case find (\<lambda>a. a_id a = article_id) (articles db) of
        Some article \<Rightarrow>
          (let article' = article\<lparr>a_status := PUBLISHED, a_published_at := Some now,
                                  a_updated_at := now\<rparr>
           in Inr (db\<lparr>articles :=
                        map (\<lambda>a. if a_id a = article_id then article' else a) (articles db)\<rparr>))
      | None \<Rightarrow> Inr db)"


section \<open>String operations of the response parser\<close>

text \<open>
  \<open>find_first sep s\<close> cuts \<open>s\<close> at the first occurrence of \<open>sep\<close>: the text before it and
  the text after it.
\<close>

fun find_first :: "string \<Rightarrow> string \<Rightarrow> (string \<times> string) option" where
  "find_first sep [] = (if sep = [] then Some ([], []) else None)"
| "find_first sep (c # cs) =
     (if starts_with sep (c # cs) then Some ([], drop (length sep) (c # cs))
      else (case find_first sep cs of
              None \<Rightarrow> None
            | Some (before, after) \<Rightarrow> Some (c # before, after)))"

text \<open>\<^verbatim>\<open>s.split(sep, 1)\<close>\<close>

definition split_once :: "string \<Rightarrow> string \<Rightarrow> string list" where
  "split_once sep s =
     (case find_first sep s of None \<Rightarrow> [s] | Some (before, after) \<Rightarrow> [before, after])"

text \<open>
  \<^verbatim>\<open>s.split(sep)\<close> for a separator that is not empty (Python raises on an empty one; the
  parser only splits on literals).
\<close>

function split_on :: "string \<Rightarrow> string \<Rightarrow> string list" where
  "split_on sep s =
     (if sep = [] then [s]
      else (case find_first sep s of
              None \<Rightarrow> [s]
            | Some (before, after) \<Rightarrow> before # split_on sep after))"
  by pat_completeness auto
termination
proof (relation "measure (\<lambda>(sep, s). length s)")
  show "wf (measure (\<lambda>(sep, s). length s))" by simp
next
  fix sep s :: string and x2 :: "string \<times> string" and before after :: string
  assume ne: "sep \<noteq> []" and f: "find_first sep s = Some x2" and x: "(before, after) = x2"
  have shorter: "find_first sep t = Some (a, b) \<Longrightarrow> length b < length t" for t a b
  proof (induction t arbitrary: a)
    case Nil
    then show ?case using ne by simp
  next
    case (Cons c cs)
    show ?case
    proof (cases "starts_with sep (c # cs)")
      case True
      then have "b = drop (length sep) (c # cs)" using Cons.prems by simp
      then show ?thesis using ne by (cases sep) simp_all
    next
      case False
      then obtain a' where "find_first sep cs = Some (a', b)"
        using Cons.prems by (auto split: option.splits)
      then have "length b < length cs" by (rule Cons.IH)
      then show ?thesis by simp
    qed
  qed
  from f x have "find_first sep s = Some (before, after)" by simp
  then have "length after < length s" by (rule shorter)
  then show "((sep, after), (sep, s)) \<in> measure (\<lambda>(sep, s). length s)" by simp
qed

text \<open>\<^verbatim>\<open>sep.join(parts)\<close>\<close>

fun join :: "string \<Rightarrow> string list \<Rightarrow> string" where
  "join sep [] = []"
| "join sep [x] = x"
| "join sep (x # y # rest) = x @ sep @ join sep (y # rest)"

text \<open>\<^verbatim>\<open>s.strip()\<close>\<close>

definition strip :: "string \<Rightarrow> string" where
  "strip s = rev (dropWhile is_space (rev (dropWhile is_space s)))"

text \<open>\<^verbatim>\<open>s.split()\<close>: the maximal runs of characters that are not white space.\<close>

fun split_ws :: "string \<Rightarrow> string \<Rightarrow> string list" where
  "split_ws acc [] = (if acc = [] then [] else [rev acc])"
| "split_ws acc (c # cs) =
     (if is_space c
      then (if acc = [] then split_ws [] cs else rev acc # split_ws [] cs)
      else split_ws (c # acc) cs)"

text \<open>\<^verbatim>\<open>s.replace(old, '', 1)\<close>\<close>

definition remove_first :: "string \<Rightarrow> string \<Rightarrow> string" where
  "remove_first old s =
     (case find_first old s of None \<Rightarrow> s | Some (before, after) \<Rightarrow> before @ after)"

text \<open>\<^verbatim>\<open>re.sub(r'\*\*|__', '', s)\<close>\<close>

fun remove_bold :: "string \<Rightarrow> string" where
  "remove_bold (a # b # cs) =
     (if (a = CHR ''*'' \<and> b = CHR ''*'') \<or> (a = CHR ''_'' \<and> b = CHR ''_'')
      then remove_bold cs
      else a # remove_bold (b # cs))"
| "remove_bold cs = cs"

text \<open>
  \<^verbatim>\<open>re.search(r'KEYWORDS:\s*\[(.+?)\]', s)\<close>, returning group 1.  The search tries every
  start position from the left.  At a position, after the literal and the white space, an
  opening bracket must follow (a bracket is no white space, so the greedy \<^verbatim>\<open>\s*\<close> never
  gives anything back); then the lazy \<^verbatim>\<open>.+?\<close> takes one character that is not a
  newline and as few more as possible up to a closing bracket, and fails at a newline.
\<close>

fun scan_to_bracket :: "string \<Rightarrow> string \<Rightarrow> string option" where
  "scan_to_bracket acc [] = None"
| "scan_to_bracket acc (c # cs) =
     (if c = CHR '']'' then Some (rev acc)
      else if c = CHR 0x0A then None
      else scan_to_bracket (c # acc) cs)"

fun lazy_group :: "string \<Rightarrow> string option" where
  "lazy_group [] = None"
| "lazy_group (c # cs) = (if c = CHR 0x0A then None else scan_to_bracket [c] cs)"

definition match_keywords_at :: "string \<Rightarrow> string option" where
  "match_keywords_at s =
     (if starts_with ''KEYWORDS:'' s
      then (case dropWhile is_space (drop (length ''KEYWORDS:'') s) of
              [] \<Rightarrow> None
            | c # rest \<Rightarrow> (if c = CHR ''['' then lazy_group rest else None))
      else None)"

fun search_keywords :: "string \<Rightarrow> string option" where
  "search_keywords [] = None"
| "search_keywords (c # cs) =
     (case match_keywords_at (c # cs) of
        Some g \<Rightarrow> Some g
      | None \<Rightarrow> search_keywords cs)"


section \<open>Analysis transform (modules/analysis.py)\<close>

text \<open>
  The other regular expressions of the parser are searched by the \<^verbatim>\<open>re\<close> module, which is
  not part of the repository: \<open>sv_re_search\<close> returns groups 0 and 1 of the first match.
  The same holds for \<^verbatim>\<open>json.loads\<close>, the generation client, \<^verbatim>\<open>requests.post\<close>, the
  social-media publisher, the hash and the clock.
\<close>

datatype regex =
    TITLE_RE
  | SUMMARY_RE
  | SEO_DESCRIPTION_RE
  | ENTITIES_RE
  | CATEGORY_RE
  | INSTAGRAM_SUMMARY_RE

record services =
  sv_sha256 :: "string \<Rightarrow> string"
  sv_utcnow :: nat
  sv_re_search :: "regex \<Rightarrow> string \<Rightarrow> (string \<times> string) option"
  sv_json_loads :: "string \<Rightarrow> error + json"
  sv_gemini :: "string \<Rightarrow> string \<Rightarrow> string option \<Rightarrow> string option \<Rightarrow> error + string"
  sv_requests_post :: "string \<Rightarrow> string \<Rightarrow> json \<Rightarrow> error + json"
  sv_post_to_instagram :: "Article \<Rightarrow> Metadata option \<Rightarrow> error + json"

text \<open>The values of the dictionaries the parser builds.\<close>

datatype pyval = PStr string | PInt int | PList "string list" | PJson json

type_synonym pydict = "(string \<times> pyval) list"

definition dict_item :: "pydict \<Rightarrow> string \<Rightarrow> error + pyval" where
  "dict_item d k = (case map_of d k of Some v \<Rightarrow> Inr v | None \<Rightarrow> Inl (KeyError k))"

definition dict_set :: "pydict \<Rightarrow> string \<Rightarrow> pyval \<Rightarrow> pydict" where
  "dict_set d k v = (if k \<in> set (map fst d)
                     then map (\<lambda>(k', v'). if k' = k then (k', v) else (k', v')) d
                     else d @ [(k, v)])"

text \<open>Unpacking a list into two names, and indexing with 0.\<close>

definition unpack2 :: "string list \<Rightarrow> error + string \<times> string" where
  "unpack2 xs = (case xs of [a, b] \<Rightarrow> Inr (a, b)
                 | _ \<Rightarrow> Inl (ValueError ''wrong number of values to unpack''))"

definition item0 :: "string list \<Rightarrow> error + string" where
  "item0 xs = (case xs of [] \<Rightarrow> Inl (IndexError ''list index out of range'') | x # _ \<Rightarrow> Inr x)"

text \<open>The first step: the article text and the metadata section.\<close>

definition split_response :: "string \<Rightarrow> error + string \<times> string" where
  "split_response response_text =
     (if contains ''---METADATA---'' response_text
      then (case unpack2 (split_once ''---METADATA---'' response_text) of
              Inl e \<Rightarrow> Inl e
            | Inr (article_content, metadata_section) \<Rightarrow>
                (case item0 (split_on ''---END_METADATA---'' metadata_section) of
                   Inl e \<Rightarrow> Inl e
                 | Inr metadata_section' \<Rightarrow> Inr (article_content, metadata_section')))
      else Inr (response_text, []))"

text \<open>The title and the article text without it.\<close>

definition extract_title :: "services \<Rightarrow> string \<Rightarrow> error + string \<times> string" where
  "extract_title sv article_content =
     (case sv_re_search sv TITLE_RE article_content of
        Some (group0, group1) \<Rightarrow>
          Inr (strip group1, strip (remove_first group0 article_content))
      | None \<Rightarrow>
          (let lines = split_on [CHR 0x0A] article_content
           in case (if lines \<noteq> [] then map_sum id strip (item0 lines)
                    else Inr ''Untitled Intelligence Report'') of
                Inl e \<Rightarrow> Inl e
              | Inr title \<Rightarrow> Inr (title, strip (join [CHR 0x0A] (drop 1 lines)))))"

definition extract_summary :: "services \<Rightarrow> string \<Rightarrow> error + string" where
  "extract_summary sv article_content =
     (case sv_re_search sv SUMMARY_RE article_content of
        Some (group0, group1) \<Rightarrow> Inr (take 500 (remove_bold (strip group1)))
      | None \<Rightarrow>
          (let paragraphs = filter (\<lambda>p. strip p \<noteq> [])
                               (split_on [CHR 0x0A, CHR 0x0A] article_content)
           in if paragraphs \<noteq> [] then map_sum id (take 500) (item0 paragraphs)
              else Inr []))"

definition parse_keywords :: "string \<Rightarrow> string list" where
  "parse_keywords metadata_section =
     (case search_keywords metadata_section of
        Some keywords_str \<Rightarrow> map strip (split_on '','' keywords_str)
      | None \<Rightarrow> [])"

definition parse_entities :: "services \<Rightarrow> string \<Rightarrow> json" where
  "parse_entities sv metadata_section =
     (case sv_re_search sv ENTITIES_RE metadata_section of
        Some (group0, group1) \<Rightarrow>
          (case sv_json_loads sv group1 of Inr v \<Rightarrow> v | Inl e \<Rightarrow> JObj [])
      | None \<Rightarrow> JObj [])"

definition parse_metadata :: "services \<Rightarrow> string \<Rightarrow> string \<Rightarrow> pydict" where
  "parse_metadata sv metadata_section summary =
     (if metadata_section \<noteq> []
      then (let m0 = [];
                m1 = dict_set m0 ''seo_description''
                       (PStr (case sv_re_search sv SEO_DESCRIPTION_RE metadata_section of
                                Some (g0, g1) \<Rightarrow> strip g1 | None \<Rightarrow> []));
                m2 = dict_set m1 ''keywords'' (PList (parse_keywords metadata_section));
                m3 = dict_set m2 ''entities'' (PJson (parse_entities sv metadata_section));
                m4 = dict_set m3 ''category''
                       (PStr (case sv_re_search sv CATEGORY_RE metadata_section of
                                Some (g0, g1) \<Rightarrow> strip g1 | None \<Rightarrow> ''Geopolitics''));
                m5 = dict_set m4 ''instagram_summary''
                       (PStr (case sv_re_search sv INSTAGRAM_SUMMARY_RE metadata_section of
                                Some (g0, g1) \<Rightarrow> strip g1 | None \<Rightarrow> take 300 summary))
            in m5)
      else [(''seo_description'', PStr (take 160 summary)),
            (''keywords'', PList []),
            (''entities'', PJson (JObj [])),
            (''category'', PStr ''Geopolitics''),
            (''instagram_summary'', PStr (take 300 summary))])"

definition parse_gemini_response :: "services \<Rightarrow> string \<Rightarrow> error + pydict" where
  "parse_gemini_response sv response_text =
     (case split_response response_text of
        Inl e \<Rightarrow> Inl e
      | Inr (article_content, metadata_section) \<Rightarrow>
     (case extract_title sv article_content of
        Inl e \<Rightarrow> Inl e
      | Inr (title, article_content') \<Rightarrow>
     (case extract_summary sv article_content' of
        Inl e \<Rightarrow> Inl e
      | Inr summary \<Rightarrow>
     (let metadata = parse_metadata sv metadata_section summary;
          word_count = length (split_ws [] article_content')
      in case dict_item metadata ''seo_description'' of Inl e \<Rightarrow> Inl e | Inr seo \<Rightarrow>
        (case dict_item metadata ''keywords'' of Inl e \<Rightarrow> Inl e | Inr keywords \<Rightarrow>
        (case dict_item metadata ''entities'' of Inl e \<Rightarrow> Inl e | Inr entities \<Rightarrow>
        (case dict_item metadata ''instagram_summary'' of Inl e \<Rightarrow> Inl e | Inr instagram \<Rightarrow>
           Inr [(''title'', PStr title),
                (''content'', PStr article_content'),
                (''summary'', PStr summary),
                (''seo_description'', seo),
                (''keywords'', keywords),
                (''entities'', entities),
                (''instagram_summary'', instagram),
                (''word_count'', PInt (int word_count))])))))))"

definition analyze_with_gemini ::
  "services \<Rightarrow> string \<Rightarrow> string \<Rightarrow> string option \<Rightarrow> string option \<Rightarrow> error + pydict" where
  "analyze_with_gemini sv raw_content category source_url source_name =
     (case sv_gemini sv raw_content category source_url source_name of
        Inl e \<Rightarrow> Inl e
      | Inr full_response \<Rightarrow>
          (case parse_gemini_response sv full_response of
             Inl e \<Rightarrow> Inl e
           | Inr result \<Rightarrow> Inr result))"


section \<open>Publishers and queue drain (modules/publishing.py)\<close>

text \<open>
  The print after a successful request evaluates
  \<^verbatim>\<open>data.get('data', {}).get('id', 'unknown')\<close>, which raises when the decoded body or its
  \<^verbatim>\<open>data\<close> member is not an object.
\<close>

definition response_id :: "json \<Rightarrow> error + json" where
  "response_id data =
     (case data of
        JObj kv \<Rightarrow>
          (case dict_get kv ''data'' (JObj []) of
             JObj kv' \<Rightarrow> Inr (dict_get kv' ''id'' (JStr ''unknown''))
           | _ \<Rightarrow> Inl (AttributeError ''object has no attribute get''))
      | _ \<Rightarrow> Inl (AttributeError ''object has no attribute get''))"


definition opt_json :: "('a \<Rightarrow> json) \<Rightarrow> 'a option \<Rightarrow> json" where
  "opt_json f v = (case v of None \<Rightarrow> JNull | Some x \<Rightarrow> f x)"

definition strapi_payload :: "nat \<Rightarrow> Article \<Rightarrow> json" where
  "strapi_payload now article =
     JObj [(''data'', JObj [(''title'', JStr (a_title article)),
                            (''content'', JStr (a_content article)),
                            (''summary'', JStr (a_summary article)),
                            (''category'', JStr (category_value (a_category article))),
                            (''source_url'', opt_json JStr (a_source_url article)),
                            (''word_count'', opt_json (\<lambda>n. JNum (of_nat n)) (a_word_count article)),
                            (''publishedAt'', JNum (of_nat now))])]"

definition publish_to_strapi :: "Settings \<Rightarrow> services \<Rightarrow> Article \<Rightarrow> error + json" where
  "publish_to_strapi settings sv article =
     (if strapi_api_token settings = [] \<or>
         strapi_api_token settings = ''your_strapi_api_token_here''
      then Inr (JObj [(''error'', JStr ''Strapi not configured'')])
      else (case sv_requests_post sv (strapi_url settings @ ''/api/articles'')
                   (strapi_api_token settings) (strapi_payload (sv_utcnow sv) article) of
              Inl e \<Rightarrow> Inl e
            | Inr data \<Rightarrow>
                (case response_id data of Inl e \<Rightarrow> Inl e | Inr i \<Rightarrow> Inr data)))"

definition schedule_publication ::
  "nat \<Rightarrow> database \<Rightarrow> nat \<Rightarrow> PublishPlatform \<Rightarrow> nat option \<Rightarrow> (error + unit) \<times> database" where
  "schedule_publication now db article_id platform scheduled_time =
     (case add_to_publish_queue now db article_id platform scheduled_time of
        (Inl e, db') \<Rightarrow> (Inl e, db')
      | (Inr q, db') \<Rightarrow> (Inr (), db'))"

text \<open>\<^verbatim>\<open>article.metadata[0] if article.metadata else None\<close>\<close>

definition article_metadata :: "database \<Rightarrow> Article \<Rightarrow> Metadata option" where
  "article_metadata db article = find (\<lambda>m. m_article_id m = a_id article) (metadata_rows db)"

text \<open>
  The body of the \<^verbatim>\<open>try\<close> of \<^verbatim>\<open>process_publish_queue\<close> for one entry.  It returns the
  exception that left it, if any, and the store as committed so far.
\<close>

definition publish_entry ::
  "Settings \<Rightarrow> services \<Rightarrow> database \<Rightarrow> PublishQueue \<Rightarrow> Article \<Rightarrow> error option \<times> database" where
  "publish_entry settings sv db queue_entry article =
     (case update_publish_status (sv_utcnow sv) db (pq_id queue_entry) PROCESSING None None of
        Inl e \<Rightarrow> (Some e, db)
      | Inr db1 \<Rightarrow>
          (case pq_platform queue_entry of
             STRAPI \<Rightarrow>
               (case publish_to_strapi settings sv article of
                  Inl e \<Rightarrow> (Some e, db1)
                | Inr result \<Rightarrow>
                    (case update_publish_status (sv_utcnow sv) db1 (pq_id queue_entry)
                            COMPLETED None (Some result) of
                       Inl e \<Rightarrow> (Some e, db1)
                     | Inr db2 \<Rightarrow>
                         (case mark_article_published (sv_utcnow sv) db2 (a_id article) of
                            Inl e \<Rightarrow> (Some e, db2)
                          | Inr db3 \<Rightarrow> (None, db3))))
           | INSTAGRAM \<Rightarrow>
               (let metadata = article_metadata db1 article
                in case sv_post_to_instagram sv article metadata of
                     Inl e \<Rightarrow> (Some e, db1)
                   | Inr result \<Rightarrow>
                       (case update_publish_status (sv_utcnow sv) db1 (pq_id queue_entry)
                               COMPLETED None (Some result) of
                          Inl e \<Rightarrow> (Some e, db1)
                        | Inr db2 \<Rightarrow> (None, db2)))))"

text \<open>
  One iteration of the loop: skip the entry whose article is missing, else run the body and,
  on an exception, mark the entry failed.  An exception of the handler itself leaves the
  loop.
\<close>

definition process_entry ::
  "Settings \<Rightarrow> services \<Rightarrow> database \<Rightarrow> PublishQueue \<Rightarrow> error + database" where
  "process_entry settings sv db queue_entry =
     (case find (\<lambda>a. a_id a = pq_article_id queue_entry) (articles db) of
        None \<Rightarrow> Inr db
      | Some article \<Rightarrow>
          (case publish_entry settings sv db queue_entry article of
             (None, db') \<Rightarrow> Inr db'
           | (Some e, db') \<Rightarrow>
               update_publish_status (sv_utcnow sv) db' (pq_id queue_entry)
                 PublishStatus.FAILED (Some (error_str e)) None))"

fun process_entries ::
  "Settings \<Rightarrow> services \<Rightarrow> database \<Rightarrow> PublishQueue list \<Rightarrow> error + database" where
  "process_entries settings sv db [] = Inr db"
| "process_entries settings sv db (queue_entry # rest) =
     (case process_entry settings sv db queue_entry of
        Inl e \<Rightarrow> Inl e
      | Inr db' \<Rightarrow> process_entries settings sv db' rest)"

definition process_publish_queue :: "Settings \<Rightarrow> services \<Rightarrow> database \<Rightarrow> error + database" where
  "process_publish_queue settings sv db =
     (let pending = get_pending_publications db None
      in if pending = [] then Inr db
         else process_entries settings sv db pending)"


section \<open>Orchestrator (scripts/run\_pipeline.py)\<close>

text \<open>
  The state of a run: the store, the two counters, the lines the loop prints about an item
  (as events) and the calls made to the two publishers.
\<close>

datatype log_event =
    SkippedDuplicate
  | SkippedTooShort int
  | AnalyzedSaved nat
  | StrapiPublishFailed error
  | InstagramPostFailed error
  | DryRunSkipping
  | ErrorProcessing error

datatype call = PublishToStrapi Article | PostToInstagram Article "Metadata option"

record run_state =
  rs_db :: database
  rs_processed_count :: nat
  rs_skipped_count :: nat
  rs_log :: "log_event list"
  rs_calls :: "call list"

definition say :: "log_event \<Rightarrow> run_state \<Rightarrow> run_state" where
  "say ev st = st\<lparr>rs_log := rs_log st @ [ev]\<rparr>"

text \<open>Typed reads of the analysis dictionary.\<close>

definition item_str :: "pydict \<Rightarrow> string \<Rightarrow> error + string" where
  "item_str d k = (case dict_item d k of
                     Inl e \<Rightarrow> Inl e
                   | Inr (PStr s) \<Rightarrow> Inr s
                   | Inr _ \<Rightarrow> Inl (TypeError k))"

definition item_int :: "pydict \<Rightarrow> string \<Rightarrow> error + int" where
  "item_int d k = (case dict_item d k of
                     Inl e \<Rightarrow> Inl e
                   | Inr (PInt n) \<Rightarrow> Inr n
                   | Inr _ \<Rightarrow> Inl (TypeError k))"

definition item_list :: "pydict \<Rightarrow> string \<Rightarrow> error + string list" where
  "item_list d k = (case dict_item d k of
                      Inl e \<Rightarrow> Inl e
                    | Inr (PList xs) \<Rightarrow> Inr xs
                    | Inr _ \<Rightarrow> Inl (TypeError k))"

definition item_json :: "pydict \<Rightarrow> string \<Rightarrow> error + json" where
  "item_json d k = (case dict_item d k of
                      Inl e \<Rightarrow> Inl e
                    | Inr (PJson j) \<Rightarrow> Inr j
                    | Inr _ \<Rightarrow> Inl (TypeError k))"

text \<open>
  Binding the keyword arguments of a call: a keyword that is no parameter of the function
  raises \<^verbatim>\<open>TypeError\<close> before the body runs.
\<close>

definition bind_keywords :: "string \<Rightarrow> string list \<Rightarrow> string list \<Rightarrow> error + unit" where
  "bind_keywords fname params keywords =
     (case find (\<lambda>k. k \<notin> set params) keywords of
        Some k \<Rightarrow> Inl (TypeError (fname @ ''() got an unexpected keyword argument '' @ k))
      | None \<Rightarrow> Inr ())"

definition save_metadata_params :: "string list" where
  "save_metadata_params =
     [''db'', ''article_id'', ''tags'', ''keywords'', ''seo_description'', ''entities'',
      ''instagram_caption'', ''instagram_hashtags'']"

text \<open>The row of an article as the session holds it after the updates so far.\<close>

definition current_row :: "database \<Rightarrow> Article \<Rightarrow> Article" where
  "current_row db article =
     (case find (\<lambda>a. a_id a = a_id article) (articles db) of Some a \<Rightarrow> a | None \<Rightarrow> article)"

text \<open>Stage 3 of the loop body, the branch of a run that is not a dry run.\<close>

definition publishing_stage :: "Settings \<Rightarrow> services \<Rightarrow> run_state \<Rightarrow> Article \<Rightarrow> run_state" where
  "publishing_stage settings sv st article =
     (let st1 = st\<lparr>rs_calls := rs_calls st @ [PublishToStrapi article]\<rparr>;
          st2 = (case publish_to_strapi settings sv article of
                   Inl e \<Rightarrow> say (StrapiPublishFailed e) st1
                 | Inr data \<Rightarrow>
                     (case mark_article_published (sv_utcnow sv) (rs_db st1) (a_id article) of
                        Inl e \<Rightarrow> say (StrapiPublishFailed e) st1
                      | Inr db' \<Rightarrow> st1\<lparr>rs_db := db'\<rparr>))
      in if instagram_enabled settings
         then (let article' = current_row (rs_db st2) article;
                   metadata = article_metadata (rs_db st2) article';
                   st3 = st2\<lparr>rs_calls := rs_calls st2 @ [PostToInstagram article' metadata]\<rparr>
               in case sv_post_to_instagram sv article' metadata of
                    Inl e \<Rightarrow> say (InstagramPostFailed e) st3
                  | Inr result \<Rightarrow> st3)
         else st2)"

text \<open>
  The body of the outer \<^verbatim>\<open>try\<close> for one item, after the duplicate check.  It returns the
  exception that left it, if any, and the state reached.
\<close>

definition item_body ::
  "Settings \<Rightarrow> services \<Rightarrow> bool \<Rightarrow> run_state \<Rightarrow> NewsArticle \<Rightarrow> error option \<times> run_state" where
  "item_body settings sv dry_run st raw_article =
     (case analyze_with_gemini sv (na_content raw_article)
             (category_value (na_category raw_article))
             (Some (na_url raw_article)) (Some (na_source raw_article)) of
        Inl e \<Rightarrow> (Some e, st)
      | Inr analysis \<Rightarrow>
     (case item_int analysis ''word_count'' of
        Inl e \<Rightarrow> (Some e, st)
      | Inr word_count \<Rightarrow>
     if word_count < article_min_words settings
     then (None, (say (SkippedTooShort word_count) st)
                   \<lparr>rs_skipped_count := rs_skipped_count st + 1\<rparr>)
     else
     (case item_str analysis ''title'' of Inl e \<Rightarrow> (Some e, st) | Inr title \<Rightarrow>
     (case item_str analysis ''content'' of Inl e \<Rightarrow> (Some e, st) | Inr content \<Rightarrow>
     (case item_str analysis ''summary'' of Inl e \<Rightarrow> (Some e, st) | Inr summary \<Rightarrow>
     (case save_article (sv_sha256 sv) (sv_utcnow sv) (rs_db st) title content summary
             (na_category raw_article) (Some (na_url raw_article))
             (Some (na_source raw_article)) (Some (na_content raw_article))
             (Some (nat word_count)) (Some (na_relevance_score raw_article)) of
        (Inl e, db1) \<Rightarrow> (Some e, st\<lparr>rs_db := db1\<rparr>)
      | (Inr article, db1) \<Rightarrow>
     (let st1 = st\<lparr>rs_db := db1\<rparr>
      in case item_list analysis ''keywords'' of Inl e \<Rightarrow> (Some e, st1) | Inr keywords \<Rightarrow>
        (case item_str analysis ''seo_description'' of Inl e \<Rightarrow> (Some e, st1) | Inr seo \<Rightarrow>
        (case item_json analysis ''entities'' of Inl e \<Rightarrow> (Some e, st1) | Inr entities \<Rightarrow>
        (case item_str analysis ''instagram_summary'' of Inl e \<Rightarrow> (Some e, st1) | Inr instagram \<Rightarrow>
        (case bind_keywords ''save_metadata'' save_metadata_params
                [''db'', ''article_id'', ''tags'', ''keywords'', ''seo_description'',
                 ''entities'', ''instagram_summary''] of
           Inl e \<Rightarrow> (Some e, st1)
         | Inr u \<Rightarrow>
        (case save_metadata (sv_utcnow sv) (rs_db st1) (a_id article)
                (Some (if keywords \<noteq> [] then take 5 keywords else [])) (Some keywords)
                (Some seo) (Some entities) None None of
           (Inl e, db2) \<Rightarrow> (Some e, st1\<lparr>rs_db := db2\<rparr>)
         | (Inr metadata, db2) \<Rightarrow>
        (let st2 = (say (AnalyzedSaved (a_id article)) (st1\<lparr>rs_db := db2\<rparr>))
                     \<lparr>rs_processed_count := rs_processed_count st1 + 1\<rparr>
         in if \<not> dry_run
            then (None, publishing_stage settings sv st2 article)
            else (None, say DryRunSkipping st2))))))))))))))"

text \<open>One iteration of the loop over the articles to process.\<close>

definition process_item ::
  "Settings \<Rightarrow> services \<Rightarrow> bool \<Rightarrow> run_state \<Rightarrow> NewsArticle \<Rightarrow> run_state" where
  "process_item settings sv dry_run st raw_article =
     (if is_duplicate (sv_sha256 sv) (rs_db st) (na_url raw_article) (na_content raw_article)
      then (say SkippedDuplicate st)\<lparr>rs_skipped_count := rs_skipped_count st + 1\<rparr>
      else (case item_body settings sv dry_run st raw_article of
              (None, st') \<Rightarrow> st'
            | (Some e, st') \<Rightarrow> say (ErrorProcessing e) st'))"

fun run_loop ::
  "Settings \<Rightarrow> services \<Rightarrow> bool \<Rightarrow> run_state \<Rightarrow> NewsArticle list \<Rightarrow> run_state" where
  "run_loop settings sv dry_run st [] = st"
| "run_loop settings sv dry_run st (raw_article # rest) =
     run_loop settings sv dry_run (process_item settings sv dry_run st raw_article) rest"

text \<open>\<^verbatim>\<open>xs[:n]\<close> for an integer \<open>n\<close>; a negative \<open>n\<close> counts from the end.\<close>

definition slice_to :: "int \<Rightarrow> 'a list \<Rightarrow> 'a list" where
  "slice_to n xs = (if 0 \<le> n then take (nat n) xs else take (nat (int (length xs) + n)) xs)"

text \<open>
  \<^verbatim>\<open>run_pipeline\<close>, from the list that \<^verbatim>\<open>fetch_all_sources\<close> returned and the store as the
  run finds it.
\<close>

definition run_pipeline ::
  "Settings \<Rightarrow> services \<Rightarrow> NewsArticle list \<Rightarrow> database \<Rightarrow> bool \<Rightarrow> int option \<Rightarrow> run_state" where
  "run_pipeline settings sv raw_articles db dry_run max_articles =
     (let max_articles' = (case max_articles of
                             None \<Rightarrow> int (max_articles_per_run settings)
                           | Some n \<Rightarrow> if n \<noteq> 0 then n else int (max_articles_per_run settings));
          st0 = \<lparr>rs_db = db, rs_processed_count = 0, rs_skipped_count = 0,
                 rs_log = [], rs_calls = []\<rparr>
      in if raw_articles = [] then st0
         else run_loop settings sv dry_run st0 (slice_to max_articles' raw_articles))"


section \<open>Auxiliary definitions and example inputs\<close>

text \<open>An article with the score that \<^verbatim>\<open>filter_content\<close> stores into it.\<close>

definition scored :: "keyword_table \<Rightarrow> NewsArticle \<Rightarrow> NewsArticle" where
  "scored kw a = a\<lparr>na_relevance_score := calculate_relevance_score kw a\<rparr>"

definition norm_title :: "NewsArticle \<Rightarrow> string" where
  "norm_title a = normalize_title (na_title a)"

text \<open>
  The articles that the loop of \<^verbatim>\<open>deduplicate\<close> appends are those at the positions whose
  normalized title is neither in the set of seen titles nor at an earlier position.
\<close>

definition first_occurrences :: "string set \<Rightarrow> NewsArticle list \<Rightarrow> NewsArticle set" where
  "first_occurrences seen xs =
     {xs ! i | i. i < length xs \<and> norm_title (xs ! i) \<notin> seen
                  \<and> (\<forall>j<i. norm_title (xs ! j) \<noteq> norm_title (xs ! i))}"

text \<open>
  The stores that the persistence layer can produce from a given one: each rule is one call
  of a function of database.py, whether it returns or raises.
\<close>

inductive later_store :: "(string \<Rightarrow> string) \<Rightarrow> database \<Rightarrow> database \<Rightarrow> bool"
  for sha256 :: "string \<Rightarrow> string" and db :: database where
  same: "later_store sha256 db db"
| after_save_article:
    "later_store sha256 db db1 \<Longrightarrow>
     save_article sha256 now db1 title content summary category source_url source_name
       raw_content word_count relevance_score = (r, db2) \<Longrightarrow>
     later_store sha256 db db2"
| after_save_metadata:
    "later_store sha256 db db1 \<Longrightarrow>
     save_metadata now db1 article_id tags keywords seo_description entities
       instagram_caption instagram_hashtags = (rm, db2) \<Longrightarrow>
     later_store sha256 db db2"
| after_add_to_publish_queue:
    "later_store sha256 db db1 \<Longrightarrow>
     add_to_publish_queue now db1 article_id platform scheduled_time = (rq, db2) \<Longrightarrow>
     later_store sha256 db db2"
| after_update_publish_status:
    "later_store sha256 db db1 \<Longrightarrow>
     update_publish_status now db1 queue_id status error_message platform_data = Inr db2 \<Longrightarrow>
     later_store sha256 db db2"
| after_mark_article_published:
    "later_store sha256 db db1 \<Longrightarrow>
     mark_article_published now db1 article_id = Inr db2 \<Longrightarrow>
     later_store sha256 db db2"

text \<open>The queue entry and the article with a given id.\<close>

definition queue_entry_of :: "database \<Rightarrow> nat \<Rightarrow> PublishQueue option" where
  "queue_entry_of db queue_id = find (\<lambda>q. pq_id q = queue_id) (publish_queue db)"

definition article_of :: "database \<Rightarrow> nat \<Rightarrow> Article option" where
  "article_of db article_id = find (\<lambda>a. a_id a = article_id) (articles db)"

text \<open>A stand-in for the hash, a clock reading and external services for the examples.\<close>

definition example_hash :: "string \<Rightarrow> string" where
  "example_hash s = rev s"

definition example_services :: services where
  "example_services =
     \<lparr>sv_sha256 = example_hash,
      sv_utcnow = 1000,
      sv_re_search = (\<lambda>r s. None),
      sv_json_loads = (\<lambda>s. Inl (ValueError ''Expecting value'')),
      sv_gemini = (\<lambda>raw category url source. Inl (ServiceError ''quota exceeded'')),
      sv_requests_post = (\<lambda>url token payload. Inl (ServiceError ''timeout'')),
      sv_post_to_instagram = (\<lambda>article metadata. Inl (ServiceError ''login failed''))\<rparr>"

definition example_response :: json where
  "example_response = JObj [(''data'', JObj [(''id'', JNum 42)])]"

definition example_services_ok :: services where
  "example_services_ok =
     example_services
       \<lparr>sv_requests_post := (\<lambda>url token payload. Inr example_response),
        sv_post_to_instagram := (\<lambda>article metadata. Inr (JObj [(''success'', JBool True)]))\<rparr>"


definition example_settings :: Settings where
  "example_settings =
     \<lparr>strapi_url = ''http://localhost:1337'',
      strapi_api_token = ''0123456789abcdef0123456789abcdef'',
      instagram_enabled = True, max_articles_per_run = 5,
      min_relevance_score = 7 / 10, article_min_words = 1500\<rparr>"

definition example_environment :: environment where
  "example_environment =
     \<lparr>env_gemini_api_key = Some ''gemini-key-0123456789abcdef0123456789'',
      env_news_api_key = Some ''news-key-0123456789abcdef0123456789'',
      env_database_url = Some ''postgresql://localhost/ancile'',
      env_strapi_url = None,
      env_strapi_api_token = Some ''0123456789abcdef0123456789abcdef'',
      env_instagram_enabled = None,
      env_max_articles_per_run = None,
      env_min_relevance_score = None,
      env_article_min_words = None\<rparr>"


definition long_body :: string where
  "long_body = ''The alliance announced that military units from several member states will take part in drills along the eastern flank next month.''"

definition item_nato :: NewsArticle where
  "item_nato =
     \<lparr>na_title = ''NATO Expands Operations'', na_content = long_body,
      na_url = ''https://example.org/a'', na_source = ''Feed'', na_category = DEFENSE,
      na_published_date = 0, na_relevance_score = 0\<rparr>"

definition item_nato_dup :: NewsArticle where
  "item_nato_dup =
     \<lparr>na_title = ''nato expands operations!!!'', na_content = long_body,
      na_url = ''https://example.org/b'', na_source = ''Feed'', na_category = DEFENSE,
      na_published_date = 0, na_relevance_score = 0\<rparr>"

definition item_short :: NewsArticle where
  "item_short =
     \<lparr>na_title = ''Military combat operations and deterrence'',
      na_content = ''NATO military defense combat, kinetic operations.'',
      na_url = ''https://example.org/c'', na_source = ''Feed'', na_category = DEFENSE,
      na_published_date = 0, na_relevance_score = 0\<rparr>"

definition item_exercise :: NewsArticle where
  "item_exercise =
     \<lparr>na_title = ''Joint exercises test NATO deterrence and combat operations'',
      na_content = long_body, na_url = ''https://example.org/d'', na_source = ''Feed'',
      na_category = DEFENSE, na_published_date = 0, na_relevance_score = 0\<rparr>"


text \<open>
  A run of the orchestrator for the examples: a configuration with a small minimum word
  count, a generation service that answers with a title line and one line of text (no
  heading, no summary section and no metadata markers, so that no pattern of the parser
  matches), and publishers that accept.
\<close>

definition pipeline_environment :: environment where
  "pipeline_environment = example_environment\<lparr>env_article_min_words := Some 3\<rparr>"

definition pipeline_settings :: Settings where
  "pipeline_settings = example_settings\<lparr>article_min_words := 3\<rparr>"

definition generated_text :: string where
  "generated_text = ''Assessment'' @ [CHR 0x0A] @ ''Allied units hold joint drills.''"

definition pipeline_services :: services where
  "pipeline_services =
     example_services_ok\<lparr>sv_gemini := (\<lambda>raw category url source. Inr generated_text)\<rparr>"

definition initial_state :: "database \<Rightarrow> run_state" where
  "initial_state db =
     \<lparr>rs_db = db, rs_processed_count = 0, rs_skipped_count = 0, rs_log = [], rs_calls = []\<rparr>"


text \<open>The article and the store after the example run has saved its one item.\<close>

definition saved_article :: Article where
  "saved_article =
     \<lparr>a_id = 1, a_title = ''Assessment'', a_content = ''Allied units hold joint drills.'',
      a_summary = ''Allied units hold joint drills.'', a_category = DEFENSE,
      a_source_url = Some ''https://example.org/a'', a_source_name = Some ''Feed'',
      a_raw_content = Some long_body, a_word_count = Some 5, a_relevance_score = Some 0,
      a_status = DRAFT, a_created_at = 1000, a_published_at = None, a_updated_at = 1000\<rparr>"

definition saved_store :: database where
  "saved_store =
     \<lparr>articles = [saved_article], metadata_rows = [], publish_queue = [],
      source_cache =
        [\<lparr>sc_id = 1, sc_source_url = ''https://example.org/a'',
          sc_content_hash = example_hash ''Allied units hold joint drills.'',
          sc_first_seen = 1000, sc_processed = None, sc_skipped = 0\<rparr>]\<rparr>"


text \<open>
  The call that the drain makes to the publisher of an entry's platform, and the relation
  between two stores that have the same queue ids and the same article ids.
\<close>

definition deliver ::
  "Settings \<Rightarrow> services \<Rightarrow> database \<Rightarrow> PublishQueue \<Rightarrow> Article \<Rightarrow> error + json" where
  "deliver settings sv db queue_entry article =
     (case pq_platform queue_entry of
        STRAPI \<Rightarrow> publish_to_strapi settings sv article
      | INSTAGRAM \<Rightarrow> sv_post_to_instagram sv article (article_metadata db article))"

definition same_ids :: "database \<Rightarrow> database \<Rightarrow> bool" where
  "same_ids db db' \<longleftrightarrow>
     map pq_id (publish_queue db') = map pq_id (publish_queue db)
     \<and> map a_id (articles db') = map a_id (articles db)
     \<and> metadata_rows db' = metadata_rows db"

text \<open>The fields that \<^verbatim>\<open>update_publish_status\<close> assigns to the row it loaded.\<close>

definition updated_entry ::
  "nat \<Rightarrow> PublishQueue \<Rightarrow> PublishStatus \<Rightarrow> string option \<Rightarrow> json option \<Rightarrow> PublishQueue" where
  "updated_entry now queue_entry status error_message platform_data =
     (let e1 = queue_entry\<lparr>pq_status := status, pq_updated_at := now\<rparr>;
          e2 = (if status = COMPLETED then e1\<lparr>pq_published_time := Some now\<rparr> else e1);
          e3 = (if status = PublishStatus.FAILED
                then e2\<lparr>pq_retry_count := pq_retry_count e2 + 1,
                        pq_error_message := error_message\<rparr>
                else e2);
          e4 = (case platform_data of
                  Some d \<Rightarrow> (if truthy d then e3\<lparr>pq_platform_data := Some d\<rparr> else e3)
                | None \<Rightarrow> e3)
      in e4)"


text \<open>
  A store with the saved article and two pending queue entries, one per platform, and
  services whose CMS accepts while the social platform refuses.
\<close>

definition queue_entry_cms :: PublishQueue where
  "queue_entry_cms =
     \<lparr>pq_id = 1, pq_article_id = 1, pq_platform = STRAPI, pq_status = PENDING,
      pq_scheduled_time = None, pq_published_time = None, pq_retry_count = 0,
      pq_error_message = None, pq_platform_data = None, pq_created_at = 1000,
      pq_updated_at = 1000\<rparr>"

definition queue_entry_social :: PublishQueue where
  "queue_entry_social =
     \<lparr>pq_id = 2, pq_article_id = 1, pq_platform = INSTAGRAM, pq_status = PENDING,
      pq_scheduled_time = None, pq_published_time = None, pq_retry_count = 0,
      pq_error_message = None, pq_platform_data = None, pq_created_at = 1000,
      pq_updated_at = 1000\<rparr>"

definition queue_store :: database where
  "queue_store = saved_store\<lparr>publish_queue := [queue_entry_cms, queue_entry_social]\<rparr>"

definition mixed_services :: services where
  "mixed_services =
     example_services\<lparr>sv_requests_post := (\<lambda>url token payload. Inr example_response)\<rparr>"



definition entities_response :: string where
  "entities_response =
     ''Assessment'' @ [CHR 0x0A] @ ''Allied units hold joint drills.'' @ [CHR 0x0A]
     @ ''---METADATA---'' @ [CHR 0x0A]
     @ ''ENTITIES: {oops}'' @ [CHR 0x0A]
     @ ''---END_METADATA---''"

definition entities_services :: services where
  "entities_services =
     example_services
       \<lparr>sv_re_search :=
          (\<lambda>r s. if r = ENTITIES_RE \<and> contains ''ENTITIES: {oops}'' s
                 then Some (''ENTITIES: {oops}'', ''{oops}'') else None),
        sv_json_loads :=
          (\<lambda>s. Inl (ValueError ''Expecting property name enclosed in double quotes''))\<rparr>"

definition result_keys :: "string list" where
  "result_keys =
     [''title'', ''content'', ''summary'', ''seo_description'', ''keywords'', ''entities'',
      ''instagram_summary'', ''word_count'']"




section \<open>Relevance score\<close>

lemma count_matches_filter:
  "count_matches ks text m = m + length (filter (\<lambda>k. contains (lower k) text) ks)"
  by (induction ks arbitrary: m) auto

text \<open>
  Claim C6.  The relevance score lies between 0 and 1.  For a category with keywords it is
  the number of keywords whose lower-case form occurs in the lower-cased title, a space and
  the content, divided by the number of keywords of the category (the cap at 1 never
  changes that quotient); for a category without keywords it is 0.
\<close>

theorem relevance_score_is_keyword_ratio:
  "let kws = dict_get kw (category_value (na_category a)) [];
       hits = length (filter (\<lambda>k. contains (lower k) (lower (na_title a @ '' '' @ na_content a))) kws);
       s = calculate_relevance_score kw a
   in 0 \<le> s \<and> s \<le> 1
      \<and> (kws \<noteq> [] \<longrightarrow> s = min (of_nat hits / of_nat (length kws)) 1
                       \<and> s = of_nat hits / of_nat (length kws))
      \<and> (kws = [] \<longrightarrow> s = 0)"
proof -
  define kws where "kws = dict_get kw (category_value (na_category a)) []"
  define hits where
    "hits = length (filter (\<lambda>k. contains (lower k) (lower (na_title a @ '' '' @ na_content a))) kws)"
  have cm: "count_matches kws (combined_text a) 0 = hits"
    by (simp add: count_matches_filter hits_def combined_text_def)
  have le: "hits \<le> length kws"
    unfolding hits_def by (rule length_filter_le)
  have s: "calculate_relevance_score kw a =
      (if kws \<noteq> [] then min (of_nat hits / of_nat (length kws)) 1 else 0)"
    by (simp add: calculate_relevance_score_def Let_def kws_def[symmetric] cm)
  have frac: "kws \<noteq> [] \<Longrightarrow> (of_nat hits / of_nat (length kws) :: rat) \<le> 1"
    using le by (simp add: divide_le_eq_1)
  have nonneg: "(0::rat) \<le> of_nat hits / of_nat (length kws)"
    by simp
  show ?thesis
    unfolding Let_def kws_def[symmetric] hits_def[symmetric] s
    using frac nonneg by (auto simp: min_def)
qed

theorem relevance_score_is_keyword_ratio_witness:
  "dict_get RELEVANCE_KEYWORDS (category_value (na_category item_nato)) [] \<noteq> []
   \<and> calculate_relevance_score RELEVANCE_KEYWORDS item_nato = 3 / 13
   \<and> dict_get [] (category_value (na_category item_nato)) [] = ([] :: string list)
   \<and> calculate_relevance_score [] item_nato = 0"
proof -
  have k: "dict_get RELEVANCE_KEYWORDS (category_value (na_category item_nato)) [] \<noteq> []"
    by code_simp
  have n: "length (dict_get RELEVANCE_KEYWORDS (category_value (na_category item_nato)) []) = 13"
    by code_simp
  have h: "length (filter (\<lambda>k. contains (lower k)
                     (lower (na_title item_nato @ '' '' @ na_content item_nato)))
             (dict_get RELEVANCE_KEYWORDS (category_value (na_category item_nato)) [])) = 3"
    by code_simp
  have e: "dict_get [] (category_value (na_category item_nato)) [] = ([] :: string list)"
    by (simp add: dict_get_def)
  from relevance_score_is_keyword_ratio[of RELEVANCE_KEYWORDS item_nato] k
  have "calculate_relevance_score RELEVANCE_KEYWORDS item_nato = 3 / 13"
    unfolding Let_def h n by simp
  moreover from relevance_score_is_keyword_ratio[of "[]" item_nato] e
  have "calculate_relevance_score [] item_nato = 0"
    unfolding Let_def by simp
  ultimately show ?thesis using k e by simp
qed


section \<open>Relevance filter\<close>

lemma filter_loop_eq:
  "filter_loop kw m xs =
     filter (\<lambda>a. m \<le> na_relevance_score a \<and> 100 \<le> length (na_content a)) (map (scored kw) xs)"
  by (induction xs) (auto simp: Let_def scored_def)

lemma norm_title_scored: "norm_title (scored kw a) = norm_title a"
  by (simp add: scored_def norm_title_def)

lemma filter_loop_mem:
  "a \<in> set (filter_loop kw m ys) \<longleftrightarrow>
     (\<exists>y\<in>set ys. a = scored kw y \<and> m \<le> calculate_relevance_score kw y
                 \<and> 100 \<le> length (na_content y))"
  by (auto simp: filter_loop_eq scored_def)

lemma filter_content_set:
  "set (filter_content settings kw ys ms) =
     set (filter_loop kw (case ms of None \<Rightarrow> min_relevance_score settings | Some v \<Rightarrow> v) ys)"
  by (simp add: filter_content_def Let_def)

lemma filter_content_sorted:
  "sorted_wrt (\<lambda>a b. na_relevance_score b \<le> na_relevance_score a)
     (filter_content settings kw ys ms)"
proof -
  have "sorted (map (\<lambda>x. - na_relevance_score x) (filter_content settings kw ys ms))"
    by (simp add: filter_content_def Let_def)
  then show ?thesis by (simp add: sorted_map)
qed

lemma filter_content_distinct:
  assumes "distinct (map norm_title ys)"
  shows "distinct (map norm_title (filter_content settings kw ys ms))"
proof -
  let ?m = "case ms of None \<Rightarrow> min_relevance_score settings | Some v \<Rightarrow> v"
  have "map norm_title (map (scored kw) ys) = map norm_title ys"
    by (induction ys) (simp_all add: norm_title_scored)
  then have "distinct (map norm_title (map (scored kw) ys))"
    using assms by metis
  then have d: "distinct (map norm_title (filter_loop kw ?m ys))"
    unfolding filter_loop_eq by (rule distinct_map_filter)
  have "mset (map norm_title (filter_content settings kw ys ms)) =
        mset (map norm_title (filter_loop kw ?m ys))"
    by (simp add: filter_content_def Let_def)
  then show ?thesis using d by (metis mset_eq_imp_distinct_iff)
qed

lemma first_occurrences_Cons_new:
  assumes "norm_title x \<notin> seen"
  shows "first_occurrences seen (x # xs) = insert x (first_occurrences (insert (norm_title x) seen) xs)"
proof (intro set_eqI iffI)
  fix y assume "y \<in> first_occurrences seen (x # xs)"
  then obtain i where i: "i < length (x # xs)" "y = (x # xs) ! i"
      "norm_title ((x # xs) ! i) \<notin> seen"
      "\<forall>j<i. norm_title ((x # xs) ! j) \<noteq> norm_title ((x # xs) ! i)"
    unfolding first_occurrences_def by blast
  show "y \<in> insert x (first_occurrences (insert (norm_title x) seen) xs)"
  proof (cases i)
    case 0
    then show ?thesis using i by simp
  next
    case (Suc k)
    have "norm_title (xs ! k) \<noteq> norm_title x"
      using i(4) Suc by (metis nth_Cons_0 nth_Cons_Suc zero_less_Suc)
    moreover have "\<forall>j<k. norm_title (xs ! j) \<noteq> norm_title (xs ! k)"
      using i(4) Suc by (metis Suc_less_eq nth_Cons_Suc)
    ultimately have "y \<in> first_occurrences (insert (norm_title x) seen) xs"
      unfolding first_occurrences_def using i Suc by auto
    then show ?thesis by blast
  qed
next
  fix y assume "y \<in> insert x (first_occurrences (insert (norm_title x) seen) xs)"
  then consider "y = x" | "y \<in> first_occurrences (insert (norm_title x) seen) xs" by blast
  then show "y \<in> first_occurrences seen (x # xs)"
  proof cases
    case 1
    then have "0 < length (x # xs) \<and> y = (x # xs) ! 0 \<and> norm_title ((x # xs) ! 0) \<notin> seen
               \<and> (\<forall>j<0. norm_title ((x # xs) ! j) \<noteq> norm_title ((x # xs) ! 0))"
      using assms by simp
    then show ?thesis unfolding first_occurrences_def by blast
  next
    case 2
    then obtain k where k: "k < length xs" "y = xs ! k"
        "norm_title (xs ! k) \<notin> insert (norm_title x) seen"
        "\<forall>j<k. norm_title (xs ! j) \<noteq> norm_title (xs ! k)"
      unfolding first_occurrences_def by blast
    have "\<forall>j<Suc k. norm_title ((x # xs) ! j) \<noteq> norm_title ((x # xs) ! Suc k)"
    proof (intro allI impI)
      fix j assume "j < Suc k"
      then show "norm_title ((x # xs) ! j) \<noteq> norm_title ((x # xs) ! Suc k)"
        using k by (cases j) auto
    qed
    then have "Suc k < length (x # xs) \<and> y = (x # xs) ! Suc k
               \<and> norm_title ((x # xs) ! Suc k) \<notin> seen
               \<and> (\<forall>j<Suc k. norm_title ((x # xs) ! j) \<noteq> norm_title ((x # xs) ! Suc k))"
      using k by simp
    then show ?thesis unfolding first_occurrences_def by blast
  qed
qed

lemma first_occurrences_Cons_seen:
  assumes "norm_title x \<in> seen"
  shows "first_occurrences seen (x # xs) = first_occurrences seen xs"
proof (intro set_eqI iffI)
  fix y assume "y \<in> first_occurrences seen (x # xs)"
  then obtain i where i: "i < length (x # xs)" "y = (x # xs) ! i"
      "norm_title ((x # xs) ! i) \<notin> seen"
      "\<forall>j<i. norm_title ((x # xs) ! j) \<noteq> norm_title ((x # xs) ! i)"
    unfolding first_occurrences_def by blast
  show "y \<in> first_occurrences seen xs"
  proof (cases i)
    case 0
    then show ?thesis using i assms by simp
  next
    case (Suc k)
    have "\<forall>j<k. norm_title (xs ! j) \<noteq> norm_title (xs ! k)"
      using i(4) Suc by (metis Suc_less_eq nth_Cons_Suc)
    then show ?thesis unfolding first_occurrences_def using i Suc by auto
  qed
next
  fix y assume "y \<in> first_occurrences seen xs"
  then obtain k where k: "k < length xs" "y = xs ! k" "norm_title (xs ! k) \<notin> seen"
      "\<forall>j<k. norm_title (xs ! j) \<noteq> norm_title (xs ! k)"
    unfolding first_occurrences_def by blast
  have "\<forall>j<Suc k. norm_title ((x # xs) ! j) \<noteq> norm_title ((x # xs) ! Suc k)"
  proof (intro allI impI)
    fix j assume "j < Suc k"
    then show "norm_title ((x # xs) ! j) \<noteq> norm_title ((x # xs) ! Suc k)"
      using k assms by (cases j) auto
  qed
  then have "Suc k < length (x # xs) \<and> y = (x # xs) ! Suc k
             \<and> norm_title ((x # xs) ! Suc k) \<notin> seen
             \<and> (\<forall>j<Suc k. norm_title ((x # xs) ! j) \<noteq> norm_title ((x # xs) ! Suc k))"
    using k by simp
  then show "y \<in> first_occurrences seen (x # xs)"
    unfolding first_occurrences_def by blast
qed

lemma deduplicate_loop_Cons:
  "deduplicate_loop seen u (x # xs) =
     (if norm_title x \<notin> seen
      then deduplicate_loop (insert (norm_title x) seen) (u @ [x]) xs
      else deduplicate_loop seen u xs)"
  by (simp add: Let_def norm_title_def)

lemma deduplicate_loop_set:
  "set (deduplicate_loop seen u xs) = set u \<union> first_occurrences seen xs"
proof (induction xs arbitrary: seen u)
  case Nil
  then show ?case by (simp add: first_occurrences_def)
next
  case (Cons x xs)
  show ?case
  proof (cases "norm_title x \<in> seen")
    case True
    then have "deduplicate_loop seen u (x # xs) = deduplicate_loop seen u xs"
      by (simp add: deduplicate_loop_Cons del: deduplicate_loop.simps)
    then show ?thesis
      using Cons.IH[of seen u] first_occurrences_Cons_seen[OF True, of xs] by simp
  next
    case False
    then have "deduplicate_loop seen u (x # xs) =
               deduplicate_loop (insert (norm_title x) seen) (u @ [x]) xs"
      by (simp add: deduplicate_loop_Cons del: deduplicate_loop.simps)
    then show ?thesis
      using Cons.IH[of "insert (norm_title x) seen" "u @ [x]"]
        first_occurrences_Cons_new[OF False, of xs] by simp
  qed
qed

lemma deduplicate_loop_distinct:
  "distinct (map norm_title u) \<Longrightarrow> norm_title ` set u \<subseteq> seen \<Longrightarrow>
   distinct (map norm_title (deduplicate_loop seen u xs))"
proof (induction xs arbitrary: seen u)
  case Nil
  then show ?case by simp
next
  case (Cons x xs)
  show ?case
  proof (cases "norm_title x \<in> seen")
    case True
    then have "deduplicate_loop seen u (x # xs) = deduplicate_loop seen u xs"
      by (simp add: deduplicate_loop_Cons del: deduplicate_loop.simps)
    then show ?thesis using Cons.IH[OF Cons.prems] by simp
  next
    case False
    then have eq: "deduplicate_loop seen u (x # xs) =
               deduplicate_loop (insert (norm_title x) seen) (u @ [x]) xs"
      by (simp add: deduplicate_loop_Cons del: deduplicate_loop.simps)
    have d1: "distinct (map norm_title (u @ [x]))"
      using Cons.prems False by auto
    have d2: "norm_title ` set (u @ [x]) \<subseteq> insert (norm_title x) seen"
      using Cons.prems by auto
    show ?thesis unfolding eq by (rule Cons.IH[OF d1 d2])
  qed
qed

lemma deduplicate_set: "set (deduplicate xs) = first_occurrences {} xs"
  by (simp add: deduplicate_def deduplicate_loop_set)

lemma deduplicate_distinct: "distinct (map norm_title (deduplicate xs))"
  unfolding deduplicate_def by (rule deduplicate_loop_distinct) simp_all

text \<open>
  Claim C5.  The output of the relevance filter (\<^verbatim>\<open>deduplicate\<close>, then \<^verbatim>\<open>filter_content\<close>) is
  sorted by descending score; every item of it has a score of at least the minimum score
  and a content of at least 100 characters; no two items have the same normalized title;
  and its items are exactly the input items (with their score stored) that are the first
  with their normalized title in the input order and pass the two thresholds.
\<close>

theorem relevance_filter_sorted_thresholded_unique:
  "let out = relevance_filter settings kw xs min_score;
       m = (case min_score of None \<Rightarrow> min_relevance_score settings | Some v \<Rightarrow> v)
   in sorted_wrt (\<lambda>a b. na_relevance_score b \<le> na_relevance_score a) out
      \<and> (\<forall>a\<in>set out. m \<le> na_relevance_score a \<and> 100 \<le> length (na_content a))
      \<and> distinct (map (\<lambda>a. normalize_title (na_title a)) out)
      \<and> set out =
          {(xs ! i)\<lparr>na_relevance_score := calculate_relevance_score kw (xs ! i)\<rparr> | i.
              i < length xs
              \<and> (\<forall>j<i. normalize_title (na_title (xs ! j)) \<noteq> normalize_title (na_title (xs ! i)))
              \<and> m \<le> calculate_relevance_score kw (xs ! i)
              \<and> 100 \<le> length (na_content (xs ! i))}"
proof -
  define m where "m = (case min_score of None \<Rightarrow> min_relevance_score settings | Some v \<Rightarrow> v)"
  define out where "out = relevance_filter settings kw xs min_score"
  let ?R = "{(xs ! i)\<lparr>na_relevance_score := calculate_relevance_score kw (xs ! i)\<rparr> | i.
              i < length xs
              \<and> (\<forall>j<i. normalize_title (na_title (xs ! j)) \<noteq> normalize_title (na_title (xs ! i)))
              \<and> m \<le> calculate_relevance_score kw (xs ! i)
              \<and> 100 \<le> length (na_content (xs ! i))}"
  have s: "set out = set (filter_loop kw m (deduplicate xs))"
    by (simp add: out_def relevance_filter_def filter_content_set m_def)
  have 1: "sorted_wrt (\<lambda>a b. na_relevance_score b \<le> na_relevance_score a) out"
    unfolding out_def relevance_filter_def by (rule filter_content_sorted)
  have 2: "\<forall>a\<in>set out. m \<le> na_relevance_score a \<and> 100 \<le> length (na_content a)"
    unfolding s by (auto simp: filter_loop_eq)
  have "distinct (map norm_title out)"
    unfolding out_def relevance_filter_def
    by (rule filter_content_distinct) (rule deduplicate_distinct)
  then have 3: "distinct (map (\<lambda>a. normalize_title (na_title a)) out)"
    by (simp add: norm_title_def[abs_def])
  have 4: "set out = ?R"
  proof (intro set_eqI iffI)
    fix a assume "a \<in> set out"
    then obtain y where y: "y \<in> set (deduplicate xs)" "a = scored kw y"
        "m \<le> calculate_relevance_score kw y" "100 \<le> length (na_content y)"
      unfolding s filter_loop_mem by blast
    from y(1) obtain i where "y = xs ! i" "i < length xs"
        "\<forall>j<i. normalize_title (na_title (xs ! j)) \<noteq> normalize_title (na_title (xs ! i))"
      unfolding deduplicate_set first_occurrences_def norm_title_def by blast
    with y show "a \<in> ?R" unfolding scored_def by blast
  next
    fix a assume "a \<in> ?R"
    then obtain i where i: "a = scored kw (xs ! i)" "i < length xs"
        "\<forall>j<i. normalize_title (na_title (xs ! j)) \<noteq> normalize_title (na_title (xs ! i))"
        "m \<le> calculate_relevance_score kw (xs ! i)" "100 \<le> length (na_content (xs ! i))"
      unfolding scored_def by blast
    have "xs ! i \<in> set (deduplicate xs)"
      unfolding deduplicate_set first_occurrences_def norm_title_def using i(2,3) by blast
    then show "a \<in> set out"
      unfolding s filter_loop_mem using i by blast
  qed
  show ?thesis
    unfolding Let_def out_def[symmetric] m_def[symmetric] using 1 2 3 4 by blast
qed

theorem relevance_filter_sorted_thresholded_unique_witness:
  "relevance_filter example_settings RELEVANCE_KEYWORDS
       [item_nato, item_nato_dup, item_short, item_exercise] (Some (1 / 13))
     = [item_exercise\<lparr>na_relevance_score := 6 / 13\<rparr>, item_nato\<lparr>na_relevance_score := 3 / 13\<rparr>]
   \<and> sorted_wrt (\<lambda>a b. na_relevance_score b \<le> na_relevance_score a)
       (relevance_filter example_settings RELEVANCE_KEYWORDS
          [item_nato, item_nato_dup, item_short, item_exercise] (Some (1 / 13)))
   \<and> distinct (map (\<lambda>a. normalize_title (na_title a))
       (relevance_filter example_settings RELEVANCE_KEYWORDS
          [item_nato, item_nato_dup, item_short, item_exercise] (Some (1 / 13))))
   \<and> normalize_title (na_title item_nato) = normalize_title (na_title item_nato_dup)
   \<and> length (na_content item_short) = 49
   \<and> calculate_relevance_score RELEVANCE_KEYWORDS item_short = 7 / 13"
proof -
  have e: "relevance_filter example_settings RELEVANCE_KEYWORDS
       [item_nato, item_nato_dup, item_short, item_exercise] (Some (1 / 13))
     = [item_exercise\<lparr>na_relevance_score := 6 / 13\<rparr>, item_nato\<lparr>na_relevance_score := 3 / 13\<rparr>]"
    by code_simp
  have n: "normalize_title (na_title item_nato) = normalize_title (na_title item_nato_dup)"
    by code_simp
  have l: "length (na_content item_short) = 49"
    by code_simp
  have c: "calculate_relevance_score RELEVANCE_KEYWORDS item_short = 7 / 13"
    by code_simp
  from relevance_filter_sorted_thresholded_unique[of example_settings RELEVANCE_KEYWORDS
      "[item_nato, item_nato_dup, item_short, item_exercise]" "Some (1 / 13)"]
  have "sorted_wrt (\<lambda>a b. na_relevance_score b \<le> na_relevance_score a)
       (relevance_filter example_settings RELEVANCE_KEYWORDS
          [item_nato, item_nato_dup, item_short, item_exercise] (Some (1 / 13)))
     \<and> distinct (map (\<lambda>a. normalize_title (na_title a))
       (relevance_filter example_settings RELEVANCE_KEYWORDS
          [item_nato, item_nato_dup, item_short, item_exercise] (Some (1 / 13))))"
    unfolding Let_def by blast
  then show ?thesis using e n l c by blast
qed


section \<open>Deduplication cache\<close>

lemma find_neq_None_iff: "find P xs \<noteq> None \<longleftrightarrow> (\<exists>x\<in>set xs. P x)"
  by (induction xs) auto

lemma is_duplicate_iff:
  "is_duplicate sha256 db url content \<longleftrightarrow>
     (\<exists>r\<in>set (source_cache db). sc_source_url r = url \<or> sc_content_hash r = sha256 content)"
proof -
  have "is_duplicate sha256 db url content \<longleftrightarrow>
          find (\<lambda>r. sc_source_url r = url) (source_cache db) \<noteq> None
          \<or> find (\<lambda>r. sc_content_hash r = sha256 content) (source_cache db) \<noteq> None"
    by (simp add: is_duplicate_def Let_def create_content_hash_def)
  then show ?thesis unfolding find_neq_None_iff by blast
qed

lemma insert_source_cache_rows:
  "insert_source_cache now db url h = Inr db' \<Longrightarrow>
   \<exists>row. source_cache db' = source_cache db @ [row] \<and> sc_source_url row = url
         \<and> sc_content_hash row = h"
  by (auto simp: insert_source_cache_def split: if_splits)

lemma save_article_cache_mono:
  "save_article sha256 now db t c s cat u n raw w sc = (r, db') \<Longrightarrow>
   set (source_cache db) \<subseteq> set (source_cache db')"
  by (auto simp: save_article_def Let_def insert_source_cache_def
           split: if_splits sum.splits)

lemma save_article_records:
  assumes "save_article sha256 now db t c s cat (Some url) n raw w sc = (Inr a, db')"
      and "url \<noteq> []" and "c \<noteq> []"
  shows "\<exists>row\<in>set (source_cache db'). sc_source_url row = url \<and> sc_content_hash row = sha256 c"
  using assms
  by (auto simp: save_article_def Let_def create_content_hash_def
           dest!: insert_source_cache_rows split: if_splits sum.splits)

lemma update_publish_status_cache:
  "update_publish_status now db qid st em pd = Inr db' \<Longrightarrow> source_cache db' = source_cache db"
  by (auto simp: update_publish_status_def Let_def split: option.splits)

lemma mark_article_published_cache:
  "mark_article_published now db aid = Inr db' \<Longrightarrow> source_cache db' = source_cache db"
  by (auto simp: mark_article_published_def Let_def split: option.splits)

lemma later_store_cache_mono:
  "later_store sha256 db db' \<Longrightarrow> set (source_cache db) \<subseteq> set (source_cache db')"
proof (induction rule: later_store.induct)
  case same
  then show ?case by simp
next
  case (after_save_article db1 now title content summary category source_url source_name
      raw_content word_count relevance_score r db2)
  then show ?case using save_article_cache_mono by blast
next
  case (after_save_metadata db1 now article_id tags kws seo_description entities
      instagram_caption instagram_hashtags rm db2)
  then show ?case by (auto simp: save_metadata_def Let_def split: if_splits)
next
  case (after_add_to_publish_queue db1 now article_id platform scheduled_time rq db2)
  then show ?case by (auto simp: add_to_publish_queue_def Let_def split: if_splits)
next
  case (after_update_publish_status db1 now queue_id status error_message platform_data db2)
  then show ?case using update_publish_status_cache by fastforce
next
  case (after_mark_article_published db1 now article_id db2)
  then show ?case using mark_article_published_cache by fastforce
qed

text \<open>
  Claim C2.  Once \<^verbatim>\<open>save_article\<close> has written the cache record for a source URL and a
  content (both not empty, the call returning normally), then in every store that the
  persistence layer produces afterwards \<^verbatim>\<open>is_duplicate\<close> is true for that URL with any
  content, and also for that content with any URL: a match on the URL or on the hash of
  the content suffices.
\<close>

theorem recorded_pair_is_duplicate:
  assumes "save_article sha256 now db title content summary category (Some url) source_name
             raw_content word_count relevance_score = (Inr article, db1)"
      and "url \<noteq> []" and "content \<noteq> []"
      and "later_store sha256 db1 db2"
  shows "is_duplicate sha256 db2 url content
         \<and> is_duplicate sha256 db2 url content'
         \<and> is_duplicate sha256 db2 url' content"
proof -
  from save_article_records[OF assms(1-3)] obtain row where
    row: "row \<in> set (source_cache db1)" "sc_source_url row = url"
         "sc_content_hash row = sha256 content" by blast
  from later_store_cache_mono[OF assms(4)] row(1) have "row \<in> set (source_cache db2)"
    by blast
  with row(2,3) show ?thesis unfolding is_duplicate_iff by blast
qed

theorem recorded_pair_is_duplicate_witness:
  "is_duplicate example_hash
     (snd (add_to_publish_queue 1001
        (snd (save_article example_hash 1000 empty_database ''Assessment'' ''Body text''
                ''Summary'' DEFENSE (Some ''https://example.org/a'') (Some ''Feed'')
                (Some ''raw'') (Some 2) (Some 0)))
        1 STRAPI None))
     ''https://example.org/a'' ''Body text''
   \<and> is_duplicate example_hash
     (snd (add_to_publish_queue 1001
        (snd (save_article example_hash 1000 empty_database ''Assessment'' ''Body text''
                ''Summary'' DEFENSE (Some ''https://example.org/a'') (Some ''Feed'')
                (Some ''raw'') (Some 2) (Some 0)))
        1 STRAPI None))
     ''https://example.org/a'' ''another body''
   \<and> is_duplicate example_hash
     (snd (add_to_publish_queue 1001
        (snd (save_article example_hash 1000 empty_database ''Assessment'' ''Body text''
                ''Summary'' DEFENSE (Some ''https://example.org/a'') (Some ''Feed'')
                (Some ''raw'') (Some 2) (Some 0)))
        1 STRAPI None))
     ''https://example.org/elsewhere'' ''Body text''"
proof -
  let ?save = "save_article example_hash 1000 empty_database ''Assessment'' ''Body text''
                ''Summary'' DEFENSE (Some ''https://example.org/a'') (Some ''Feed'')
                (Some ''raw'') (Some 2) (Some 0)"
  let ?db1 = "snd ?save"
  let ?db2 = "snd (add_to_publish_queue 1001 ?db1 1 STRAPI None)"
  have "\<not> isl (fst ?save)"
    by code_simp
  then obtain a where "fst ?save = Inr a"
    by (cases "fst ?save") auto
  then have s: "?save = (Inr a, ?db1)"
    by (metis prod.collapse)
  have u: "''https://example.org/a'' \<noteq> []" and c: "''Body text'' \<noteq> []"
    by simp_all
  have "add_to_publish_queue 1001 ?db1 1 STRAPI None =
          (fst (add_to_publish_queue 1001 ?db1 1 STRAPI None), ?db2)"
    by simp
  with later_store.same[of example_hash ?db1] have l: "later_store example_hash ?db1 ?db2"
    by (rule later_store.after_add_to_publish_queue)
  from recorded_pair_is_duplicate[OF s u c l,
      of "''another body''" "''https://example.org/elsewhere''"]
  show ?thesis by blast
qed


section \<open>Unknown identifiers\<close>

lemma find_None_not_mem: "find P xs = None \<longleftrightarrow> (\<forall>x\<in>set xs. \<not> P x)"
  by (induction xs) auto

text \<open>
  Claim C8, as the code has it.  \<^verbatim>\<open>mark_article_published\<close> on an id for which no article
  exists returns normally and leaves the store as it is.  The operations that insert a row
  for an unknown article id (\<^verbatim>\<open>save_metadata\<close>, \<^verbatim>\<open>add_to_publish_queue\<close>) fail with the
  integrity error of the store, and \<^verbatim>\<open>update_publish_status\<close> on an unknown queue id raises
  \<^verbatim>\<open>ValueError\<close>; in each case nothing is written.
\<close>

theorem unknown_id_operations:
  "(article_id \<notin> set (map a_id (articles db)) \<longrightarrow>
      mark_article_published now db article_id = Inr db
      \<and> (\<exists>m. save_metadata now db article_id tags kws seo_description entities
                 instagram_caption instagram_hashtags = (Inl (IntegrityError m), db))
      \<and> (\<exists>m. add_to_publish_queue now db article_id platform scheduled_time
                 = (Inl (IntegrityError m), db)))
   \<and> (queue_id \<notin> set (map pq_id (publish_queue db)) \<longrightarrow>
      (\<exists>m. update_publish_status now db queue_id status error_message platform_data
                 = Inl (ValueError m)))"
proof (intro conjI impI)
  assume a: "article_id \<notin> set (map a_id (articles db))"
  then have "find (\<lambda>a. a_id a = article_id) (articles db) = None"
    unfolding find_None_not_mem by auto
  then show "mark_article_published now db article_id = Inr db"
    by (simp add: mark_article_published_def)
  show "\<exists>m. save_metadata now db article_id tags kws seo_description entities
                 instagram_caption instagram_hashtags = (Inl (IntegrityError m), db)"
    using a by (simp add: save_metadata_def Let_def)
  show "\<exists>m. add_to_publish_queue now db article_id platform scheduled_time
                 = (Inl (IntegrityError m), db)"
    using a by (simp add: add_to_publish_queue_def Let_def)
next
  assume "queue_id \<notin> set (map pq_id (publish_queue db))"
  then have "find (\<lambda>q. pq_id q = queue_id) (publish_queue db) = None"
    unfolding find_None_not_mem by auto
  then show "\<exists>m. update_publish_status now db queue_id status error_message platform_data
                 = Inl (ValueError m)"
    by (simp add: update_publish_status_def)
qed

theorem unknown_id_operations_witness:
  "7 \<notin> set (map a_id (articles empty_database))
   \<and> mark_article_published 1000 empty_database 7 = Inr empty_database
   \<and> (\<exists>m. save_metadata 1000 empty_database 7 None None None None None None
             = (Inl (IntegrityError m), empty_database))
   \<and> (\<exists>m. add_to_publish_queue 1000 empty_database 7 STRAPI None
             = (Inl (IntegrityError m), empty_database))
   \<and> 3 \<notin> set (map pq_id (publish_queue empty_database))
   \<and> (\<exists>m. update_publish_status 1000 empty_database 3 COMPLETED None None
             = Inl (ValueError m))"
proof -
  have a: "7 \<notin> set (map a_id (articles empty_database))"
    by (simp add: empty_database_def)
  have q: "3 \<notin> set (map pq_id (publish_queue empty_database))"
    by (simp add: empty_database_def)
  from unknown_id_operations[of 7 empty_database 1000 None None None None None None
      STRAPI None 3 COMPLETED None None] a q
  show ?thesis by blast
qed

theorem mark_published_unknown_id_counterexample:
  "article_of empty_database 7 = None
   \<and> mark_article_published 1000 empty_database 7 = Inr empty_database"
  by (simp add: article_of_def mark_article_published_def empty_database_def)


section \<open>CMS publisher\<close>








section \<open>Orchestrator: a failing generation service\<close>

text \<open>
  Claim C4.  When the item is not a duplicate and the call of the generation service
  raises, the iteration catches the error and logs it, and leaves everything else as it
  was: the store (no article, metadata or cache row is added) and the two counters.  The
  loop then goes on with the next item.
\<close>

theorem generation_failure_skips_item:
  assumes "\<not> is_duplicate (sv_sha256 sv) (rs_db st) (na_url item) (na_content item)"
      and "sv_gemini sv (na_content item) (category_value (na_category item))
             (Some (na_url item)) (Some (na_source item)) = Inl e"
  shows "process_item settings sv dry_run st item = st\<lparr>rs_log := rs_log st @ [ErrorProcessing e]\<rparr>
         \<and> rs_db (process_item settings sv dry_run st item) = rs_db st
         \<and> articles (rs_db (process_item settings sv dry_run st item)) = articles (rs_db st)
         \<and> metadata_rows (rs_db (process_item settings sv dry_run st item))
             = metadata_rows (rs_db st)
         \<and> source_cache (rs_db (process_item settings sv dry_run st item))
             = source_cache (rs_db st)
         \<and> run_loop settings sv dry_run st (item # rest)
             = run_loop settings sv dry_run (st\<lparr>rs_log := rs_log st @ [ErrorProcessing e]\<rparr>) rest"
proof -
  have a: "analyze_with_gemini sv (na_content item) (category_value (na_category item))
             (Some (na_url item)) (Some (na_source item)) = Inl e"
    using assms(2) by (simp add: analyze_with_gemini_def)
  have b: "item_body settings sv dry_run st item = (Some e, st)"
    by (simp add: item_body_def a)
  have p: "process_item settings sv dry_run st item = st\<lparr>rs_log := rs_log st @ [ErrorProcessing e]\<rparr>"
    using assms(1) by (simp add: process_item_def b say_def)
  show ?thesis
    by (simp add: p)
qed

theorem generation_failure_skips_item_witness:
  "\<not> is_duplicate (sv_sha256 example_services) (rs_db (initial_state empty_database))
        (na_url item_nato) (na_content item_nato)
   \<and> process_item example_settings example_services False (initial_state empty_database) item_nato
       = (initial_state empty_database)\<lparr>rs_log := [ErrorProcessing (ServiceError ''quota exceeded'')]\<rparr>
   \<and> articles (rs_db (process_item example_settings example_services False
                        (initial_state empty_database) item_nato)) = []
   \<and> source_cache (rs_db (process_item example_settings example_services False
                        (initial_state empty_database) item_nato)) = []
   \<and> rs_log (run_loop example_settings example_services False (initial_state empty_database)
               [item_nato, item_exercise])
       = [ErrorProcessing (ServiceError ''quota exceeded''),
          ErrorProcessing (ServiceError ''quota exceeded'')]"
proof -
  have d: "\<not> is_duplicate (sv_sha256 example_services) (rs_db (initial_state empty_database))
        (na_url item_nato) (na_content item_nato)"
    by (simp add: is_duplicate_def initial_state_def empty_database_def)
  have g: "sv_gemini example_services (na_content item_nato)
             (category_value (na_category item_nato))
             (Some (na_url item_nato)) (Some (na_source item_nato))
           = Inl (ServiceError ''quota exceeded'')"
    by (simp add: example_services_def)
  have l: "rs_log (run_loop example_settings example_services False
                     (initial_state empty_database) [item_nato, item_exercise])
       = [ErrorProcessing (ServiceError ''quota exceeded''),
          ErrorProcessing (ServiceError ''quota exceeded'')]"
    by code_simp
  from generation_failure_skips_item[OF d g, of example_settings False "[]"]
  show ?thesis using d l
    by (simp add: initial_state_def empty_database_def)
qed


section \<open>Orchestrator: the publishing stage\<close>

lemma mark_article_published_queue:
  "mark_article_published now db aid = Inr db' \<Longrightarrow> publish_queue db' = publish_queue db"
  by (auto simp: mark_article_published_def Let_def split: option.splits)

lemma mark_article_published_returns: "\<exists>db'. mark_article_published now db aid = Inr db'"
  by (simp add: mark_article_published_def Let_def split: option.splits)

text \<open>
  Claim C3, as the code has it.  The publishing stage of a run that is not a dry run
  creates no publish-queue entry.  It calls the CMS publisher for the article and then, if
  the social platform is enabled, the social publisher, whatever the first call did; a
  failure of either is logged, and the stage ends normally with the counters as they
  were.  When the CMS publisher returns, the article is marked published; when it raises,
  the store stays as it was.  Every iteration of the loop is followed by the rest of the
  loop.
\<close>

theorem publishing_stage_attempts_both_without_queue:
  "publish_queue (rs_db (publishing_stage settings sv st article)) = publish_queue (rs_db st)
   \<and> (\<exists>article' metadata.
         a_id article' = a_id article
         \<and> rs_calls (publishing_stage settings sv st article)
             = rs_calls st @ PublishToStrapi article #
                 (if instagram_enabled settings then [PostToInstagram article' metadata] else [])
         \<and> (\<forall>e. instagram_enabled settings
                 \<and> sv_post_to_instagram sv article' metadata = Inl e \<longrightarrow>
               InstagramPostFailed e \<in> set (rs_log (publishing_stage settings sv st article))))
   \<and> (\<forall>e. publish_to_strapi settings sv article = Inl e \<longrightarrow>
          StrapiPublishFailed e \<in> set (rs_log (publishing_stage settings sv st article))
          \<and> rs_db (publishing_stage settings sv st article) = rs_db st)
   \<and> (\<forall>r. publish_to_strapi settings sv article = Inr r \<longrightarrow>
          mark_article_published (sv_utcnow sv) (rs_db st) (a_id article)
            = Inr (rs_db (publishing_stage settings sv st article)))
   \<and> (\<exists>events. rs_log (publishing_stage settings sv st article) = rs_log st @ events)
   \<and> rs_processed_count (publishing_stage settings sv st article) = rs_processed_count st
   \<and> rs_skipped_count (publishing_stage settings sv st article) = rs_skipped_count st
   \<and> run_loop settings sv dry_run st0 (item # rest)
       = run_loop settings sv dry_run (process_item settings sv dry_run st0 item) rest"
proof -
  define st1 where "st1 = st\<lparr>rs_calls := rs_calls st @ [PublishToStrapi article]\<rparr>"
  define st2 where
    "st2 = (case publish_to_strapi settings sv article of
              Inl e \<Rightarrow> say (StrapiPublishFailed e) st1
            | Inr data \<Rightarrow>
                (case mark_article_published (sv_utcnow sv) (rs_db st1) (a_id article) of
                   Inl e \<Rightarrow> say (StrapiPublishFailed e) st1
                 | Inr db' \<Rightarrow> st1\<lparr>rs_db := db'\<rparr>))"
  define article' where "article' = current_row (rs_db st2) article"
  define metadata where "metadata = article_metadata (rs_db st2) article'"
  define st3 where "st3 = st2\<lparr>rs_calls := rs_calls st2 @ [PostToInstagram article' metadata]\<rparr>"
  have stage: "publishing_stage settings sv st article =
      (if instagram_enabled settings
       then (case sv_post_to_instagram sv article' metadata of
               Inl e \<Rightarrow> say (InstagramPostFailed e) st3
             | Inr result \<Rightarrow> st3)
       else st2)"
    unfolding publishing_stage_def st3_def metadata_def article'_def st2_def st1_def Let_def
    by (rule refl)
  obtain dbm where dbm: "mark_article_published (sv_utcnow sv) (rs_db st) (a_id article) = Inr dbm"
    using mark_article_published_returns by blast
  have st2_cases:
    "(\<exists>e. publish_to_strapi settings sv article = Inl e
          \<and> st2 = st1\<lparr>rs_log := rs_log st @ [StrapiPublishFailed e]\<rparr>)
     \<or> (\<exists>r. publish_to_strapi settings sv article = Inr r \<and> st2 = st1\<lparr>rs_db := dbm\<rparr>)"
    by (cases "publish_to_strapi settings sv article")
       (simp_all add: st2_def st1_def say_def dbm)
  have q2: "publish_queue (rs_db st2) = publish_queue (rs_db st)"
    using st2_cases mark_article_published_queue[OF dbm] by (auto simp: st1_def)
  have c2: "rs_calls st2 = rs_calls st @ [PublishToStrapi article]"
    using st2_cases by (auto simp: st1_def)
  have n2: "rs_processed_count st2 = rs_processed_count st
            \<and> rs_skipped_count st2 = rs_skipped_count st"
    using st2_cases by (auto simp: st1_def)
  have l2: "\<exists>events. rs_log st2 = rs_log st @ events"
    using st2_cases by (auto simp: st1_def)
  have f2: "\<forall>e. publish_to_strapi settings sv article = Inl e \<longrightarrow>
              StrapiPublishFailed e \<in> set (rs_log st2) \<and> rs_db st2 = rs_db st"
    using st2_cases by (auto simp: st1_def)
  have m2: "\<forall>r. publish_to_strapi settings sv article = Inr r \<longrightarrow>
              mark_article_published (sv_utcnow sv) (rs_db st) (a_id article) = Inr (rs_db st2)"
    using st2_cases dbm by (auto simp: st1_def)
  have id': "a_id article' = a_id article"
    by (auto simp: article'_def current_row_def split: option.splits dest: find_Some_iff[THEN iffD1])
  have fin: "rs_db (publishing_stage settings sv st article) = rs_db st2
        \<and> rs_processed_count (publishing_stage settings sv st article) = rs_processed_count st2
        \<and> rs_skipped_count (publishing_stage settings sv st article) = rs_skipped_count st2
        \<and> (\<exists>events. rs_log (publishing_stage settings sv st article) = rs_log st2 @ events)
        \<and> rs_calls (publishing_stage settings sv st article)
             = rs_calls st2 @ (if instagram_enabled settings
                               then [PostToInstagram article' metadata] else [])
        \<and> (\<forall>e. instagram_enabled settings
                 \<and> sv_post_to_instagram sv article' metadata = Inl e \<longrightarrow>
               InstagramPostFailed e \<in> set (rs_log (publishing_stage settings sv st article)))"
    unfolding stage
    by (cases "sv_post_to_instagram sv article' metadata") (simp_all add: st3_def say_def)
  have calls: "rs_calls (publishing_stage settings sv st article)
             = rs_calls st @ PublishToStrapi article #
                 (if instagram_enabled settings then [PostToInstagram article' metadata] else [])"
    using fin c2 by simp
  have logs: "\<exists>events. rs_log (publishing_stage settings sv st article) = rs_log st @ events"
    using fin l2 by (metis append.assoc)
  have strapi_logged: "\<forall>e. publish_to_strapi settings sv article = Inl e \<longrightarrow>
          StrapiPublishFailed e \<in> set (rs_log (publishing_stage settings sv st article))
          \<and> rs_db (publishing_stage settings sv st article) = rs_db st"
  proof (intro allI impI)
    fix e assume "publish_to_strapi settings sv article = Inl e"
    with f2 have "StrapiPublishFailed e \<in> set (rs_log st2)" "rs_db st2 = rs_db st"
      by blast+
    moreover from fin obtain events where
      "rs_log (publishing_stage settings sv st article) = rs_log st2 @ events"
      by blast
    ultimately show "StrapiPublishFailed e \<in> set (rs_log (publishing_stage settings sv st article))
          \<and> rs_db (publishing_stage settings sv st article) = rs_db st"
      using fin by simp
  qed
  have second: "\<exists>article' metadata.
         a_id article' = a_id article
         \<and> rs_calls (publishing_stage settings sv st article)
             = rs_calls st @ PublishToStrapi article #
                 (if instagram_enabled settings then [PostToInstagram article' metadata] else [])
         \<and> (\<forall>e. instagram_enabled settings
                 \<and> sv_post_to_instagram sv article' metadata = Inl e \<longrightarrow>
               InstagramPostFailed e \<in> set (rs_log (publishing_stage settings sv st article)))"
    using id' calls fin by blast
  show ?thesis
    using q2 second strapi_logged m2 logs n2 fin by simp
qed

theorem publishing_stage_attempts_both_without_queue_witness:
  "publish_to_strapi pipeline_settings example_services saved_article
     = Inl (ServiceError ''timeout'')
   \<and> instagram_enabled pipeline_settings
   \<and> StrapiPublishFailed (ServiceError ''timeout'')
       \<in> set (rs_log (publishing_stage pipeline_settings example_services
                         (initial_state saved_store) saved_article))
   \<and> rs_log (publishing_stage pipeline_settings example_services
                (initial_state saved_store) saved_article)
       = [StrapiPublishFailed (ServiceError ''timeout''),
          InstagramPostFailed (ServiceError ''login failed'')]
   \<and> rs_calls (publishing_stage pipeline_settings example_services
                  (initial_state saved_store) saved_article)
       = [PublishToStrapi saved_article, PostToInstagram saved_article None]
   \<and> rs_db (publishing_stage pipeline_settings example_services
               (initial_state saved_store) saved_article) = saved_store
   \<and> publish_queue (rs_db (publishing_stage pipeline_settings example_services
                              (initial_state saved_store) saved_article)) = []"
proof -
  let ?st = "publishing_stage pipeline_settings example_services
               (initial_state saved_store) saved_article"
  have f: "publish_to_strapi pipeline_settings example_services saved_article
             = Inl (ServiceError ''timeout'')"
    by (simp add: publish_to_strapi_def pipeline_settings_def example_settings_def
          example_services_def)
  have i: "instagram_enabled pipeline_settings"
    by (simp add: pipeline_settings_def example_settings_def)
  have l: "rs_log ?st = [StrapiPublishFailed (ServiceError ''timeout''),
                         InstagramPostFailed (ServiceError ''login failed'')]"
    by code_simp
  have c: "rs_calls ?st = [PublishToStrapi saved_article, PostToInstagram saved_article None]"
    by code_simp
  from publishing_stage_attempts_both_without_queue[of pipeline_settings example_services
      "initial_state saved_store" saved_article] f
  have m: "StrapiPublishFailed (ServiceError ''timeout'') \<in> set (rs_log ?st)"
    and d: "rs_db ?st = rs_db (initial_state saved_store)"
    and q: "publish_queue (rs_db ?st) = publish_queue (rs_db (initial_state saved_store))"
    by blast+
  have d': "rs_db ?st = saved_store"
    using d by (simp add: initial_state_def)
  have q': "publish_queue (rs_db ?st) = []"
    using q by (simp add: initial_state_def saved_store_def)
  from f i m l c d' q' show ?thesis by blast
qed

theorem no_queue_entry_counterexample:
  "get_settings pipeline_environment = Inr pipeline_settings
   \<and> rs_db (run_pipeline pipeline_settings pipeline_services [item_nato] empty_database
              False None) = saved_store
   \<and> articles saved_store = [saved_article]
   \<and> publish_queue saved_store = []
   \<and> publish_queue (rs_db (publishing_stage pipeline_settings pipeline_services
                              (initial_state saved_store) saved_article)) = []
   \<and> rs_calls (publishing_stage pipeline_settings pipeline_services
                  (initial_state saved_store) saved_article)
       = [PublishToStrapi saved_article,
          PostToInstagram (saved_article\<lparr>a_status := PUBLISHED, a_published_at := Some 1000\<rparr>)
            None]"
proof -
  have g: "get_settings pipeline_environment = Inr pipeline_settings"
    by (simp add: get_settings_def required_field_def field_default_def
          pipeline_environment_def example_environment_def pipeline_settings_def
          example_settings_def)
  have r: "rs_db (run_pipeline pipeline_settings pipeline_services [item_nato] empty_database
              False None) = saved_store"
    by code_simp
  have a: "articles saved_store = [saved_article]" and q: "publish_queue saved_store = []"
    by (simp_all add: saved_store_def)
  have sq: "publish_queue (rs_db (publishing_stage pipeline_settings pipeline_services
                              (initial_state saved_store) saved_article)) = []"
    by code_simp
  have sc: "rs_calls (publishing_stage pipeline_settings pipeline_services
                  (initial_state saved_store) saved_article)
       = [PublishToStrapi saved_article,
          PostToInstagram (saved_article\<lparr>a_status := PUBLISHED, a_published_at := Some 1000\<rparr>)
            None]"
    by code_simp
  from g r a q sq sc show ?thesis by blast
qed


section \<open>Queue drain\<close>

lemma find_map_other:
  assumes "\<And>x. P (f x) = P x" and "\<And>x. P x \<Longrightarrow> f x = y"
  shows "find P (map f xs) = map_option (\<lambda>_. y) (find P xs)"
  using assms by (induction xs) auto

lemma find_map_unchanged:
  assumes "\<And>x. P x \<Longrightarrow> f x = x" and "\<And>x. P (f x) = P x"
  shows "find P (map f xs) = find P xs"
  using assms by (induction xs) auto

lemma find_mem_iff: "find P xs \<noteq> None \<longleftrightarrow> (\<exists>x\<in>set xs. P x)"
  by (induction xs) auto

lemma find_distinct_key:
  assumes "distinct (map f xs)" and "x \<in> set xs"
  shows "find (\<lambda>y. f y = f x) xs = Some x"
  using assms by (induction xs) (auto simp: image_iff)

lemma updated_entry_id [simp]: "pq_id (updated_entry now q s em pd) = pq_id q"
  by (simp add: updated_entry_def Let_def split: option.splits)

lemma update_publish_status_eq:
  "update_publish_status now db k s em pd =
     (case queue_entry_of db k of
        None \<Rightarrow> Inl (ValueError ''Queue entry not found'')
      | Some q0 \<Rightarrow>
          Inr (db\<lparr>publish_queue :=
                 map (\<lambda>q. if pq_id q = k then updated_entry now q0 s em pd else q)
                   (publish_queue db)\<rparr>))"
  by (simp add: update_publish_status_def queue_entry_of_def updated_entry_def Let_def
           split: option.splits)

lemma queue_entry_of_id: "queue_entry_of db k = Some q \<Longrightarrow> pq_id q = k"
  unfolding queue_entry_of_def by (auto dest: find_Some_iff[THEN iffD1])

lemma update_publish_status_ok:
  assumes "queue_entry_of db k = Some q0"
  shows "\<exists>db'. update_publish_status now db k s em pd = Inr db'
           \<and> queue_entry_of db' k = Some (updated_entry now q0 s em pd)
           \<and> (\<forall>k'. k' \<noteq> k \<longrightarrow> queue_entry_of db' k' = queue_entry_of db k')
           \<and> same_ids db db'
           \<and> articles db' = articles db"
proof -
  let ?f = "\<lambda>q. if pq_id q = k then updated_entry now q0 s em pd else q"
  let ?db' = "db\<lparr>publish_queue := map ?f (publish_queue db)\<rparr>"
  have k0: "pq_id q0 = k" using assms by (rule queue_entry_of_id)
  have u: "update_publish_status now db k s em pd = Inr ?db'"
    by (simp add: update_publish_status_eq assms)
  have "find (\<lambda>q. pq_id q = k) (map ?f (publish_queue db))
          = map_option (\<lambda>_. updated_entry now q0 s em pd) (find (\<lambda>q. pq_id q = k) (publish_queue db))"
    by (rule find_map_other) (auto simp: k0)
  then have 1: "queue_entry_of ?db' k = Some (updated_entry now q0 s em pd)"
    using assms by (simp add: queue_entry_of_def)
  have 2: "\<forall>k'. k' \<noteq> k \<longrightarrow> queue_entry_of ?db' k' = queue_entry_of db k'"
  proof (intro allI impI)
    fix k' assume "k' \<noteq> k"
    then have "find (\<lambda>q. pq_id q = k') (map ?f (publish_queue db))
                 = find (\<lambda>q. pq_id q = k') (publish_queue db)"
      by (intro find_map_unchanged) (auto simp: k0)
    then show "queue_entry_of ?db' k' = queue_entry_of db k'"
      by (simp add: queue_entry_of_def)
  qed
  have "map pq_id (map ?f (publish_queue db)) = map pq_id (publish_queue db)"
    by (induction "publish_queue db") (auto simp: k0)
  then have 3: "same_ids db ?db'"
    by (simp add: same_ids_def)
  show ?thesis using u 1 2 3 by simp
qed

lemma mark_article_published_ok:
  "\<exists>db'. mark_article_published now db aid = Inr db'
         \<and> publish_queue db' = publish_queue db \<and> same_ids db db'"
proof (cases "find (\<lambda>a. a_id a = aid) (articles db)")
  case None
  then show ?thesis by (simp add: mark_article_published_def same_ids_def)
next
  case (Some article)
  then have i: "a_id article = aid"
    by (auto dest: find_Some_iff[THEN iffD1])
  let ?f = "\<lambda>a. if a_id a = aid
                 then article\<lparr>a_status := PUBLISHED, a_published_at := Some now,
                               a_updated_at := now\<rparr>
                 else a"
  have "map a_id (map ?f (articles db)) = map a_id (articles db)"
    by (induction "articles db") (auto simp: i)
  then show ?thesis
    using Some by (simp add: mark_article_published_def Let_def same_ids_def)
qed

lemma same_ids_refl [simp]: "same_ids db db"
  by (simp add: same_ids_def)

lemma same_ids_trans: "same_ids a b \<Longrightarrow> same_ids b c \<Longrightarrow> same_ids a c"
  by (simp add: same_ids_def)

lemma same_ids_queue_entry:
  assumes "same_ids db db'"
  shows "queue_entry_of db' k \<noteq> None \<longleftrightarrow> queue_entry_of db k \<noteq> None"
proof -
  have h: "queue_entry_of d k \<noteq> None \<longleftrightarrow> k \<in> pq_id ` set (publish_queue d)" for d
    unfolding queue_entry_of_def find_mem_iff by auto
  have "map pq_id (publish_queue db') = map pq_id (publish_queue db)"
    using assms by (simp add: same_ids_def)
  then have "pq_id ` set (publish_queue db') = pq_id ` set (publish_queue db)"
    by (metis set_map)
  then show ?thesis unfolding h by simp
qed

lemma same_ids_article:
  assumes "same_ids db db'"
  shows "article_of db' k \<noteq> None \<longleftrightarrow> article_of db k \<noteq> None"
proof -
  have h: "article_of d k \<noteq> None \<longleftrightarrow> k \<in> a_id ` set (articles d)" for d
    unfolding article_of_def find_mem_iff by auto
  have "map a_id (articles db') = map a_id (articles db)"
    using assms by (simp add: same_ids_def)
  then have "a_id ` set (articles db') = a_id ` set (articles db)"
    by (metis set_map)
  then show ?thesis unfolding h by simp
qed

lemma updated_entry_fields:
  "pq_status (updated_entry now q s em pd) = s"
  "pq_retry_count (updated_entry now q s em pd)
     = (if s = PublishStatus.FAILED then pq_retry_count q + 1 else pq_retry_count q)"
  "pq_published_time (updated_entry now q s em pd)
     = (if s = COMPLETED then Some now else pq_published_time q)"
  "pq_error_message (updated_entry now q s em pd)
     = (if s = PublishStatus.FAILED then em else pq_error_message q)"
  by (simp_all add: updated_entry_def Let_def split: option.splits)

lemma update_publish_status_metadata:
  "update_publish_status now db k s em pd = Inr db' \<Longrightarrow> metadata_rows db' = metadata_rows db"
  by (auto simp: update_publish_status_def Let_def split: option.splits)

text \<open>One iteration of the drain on an entry that is in the queue and whose article exists.\<close>

lemma process_entry_steps:
  assumes q0: "queue_entry_of db (pq_id q) = Some q0"
      and a: "find (\<lambda>a. a_id a = pq_article_id q) (articles db) = Some article"
  shows "\<exists>db1 db2.
           update_publish_status (sv_utcnow sv) db (pq_id q) PROCESSING None None = Inr db1
         \<and> queue_entry_of db1 (pq_id q)
             = Some (updated_entry (sv_utcnow sv) q0 PROCESSING None None)
         \<and> process_entry settings sv db q = Inr db2
         \<and> same_ids db db2
         \<and> (\<forall>k'. k' \<noteq> pq_id q \<longrightarrow> queue_entry_of db2 k' = queue_entry_of db k')
         \<and> (\<forall>result. deliver settings sv db q article = Inr result \<longrightarrow>
               queue_entry_of db2 (pq_id q)
                 = Some (updated_entry (sv_utcnow sv)
                           (updated_entry (sv_utcnow sv) q0 PROCESSING None None)
                           COMPLETED None (Some result)))
         \<and> (\<forall>e. deliver settings sv db q article = Inl e \<longrightarrow>
               queue_entry_of db2 (pq_id q)
                 = Some (updated_entry (sv_utcnow sv)
                           (updated_entry (sv_utcnow sv) q0 PROCESSING None None)
                           PublishStatus.FAILED (Some (error_str e)) None)
               \<and> update_publish_status (sv_utcnow sv) db1 (pq_id q) PublishStatus.FAILED
                     (Some (error_str e)) None = Inr db2)"
proof -
  let ?now = "sv_utcnow sv" and ?k = "pq_id q"
  let ?q1 = "updated_entry ?now q0 PROCESSING None None"
  from update_publish_status_ok[OF q0, of ?now PROCESSING None None] obtain db1 where
    u1: "update_publish_status ?now db ?k PROCESSING None None = Inr db1"
    and e1: "queue_entry_of db1 ?k = Some ?q1"
    and o1: "\<forall>k'. k' \<noteq> ?k \<longrightarrow> queue_entry_of db1 k' = queue_entry_of db k'"
    and s1: "same_ids db db1" and a1: "articles db1 = articles db"
    by blast
  have m1: "article_metadata db1 article = article_metadata db article"
    using update_publish_status_metadata[OF u1] by (simp add: article_metadata_def)
  show ?thesis
  proof (cases "deliver settings sv db q article")
    case (Inl e)
    from update_publish_status_ok[OF e1, of ?now PublishStatus.FAILED "Some (error_str e)" None]
    obtain db2 where
      u2: "update_publish_status ?now db1 ?k PublishStatus.FAILED (Some (error_str e)) None
             = Inr db2"
      and e2: "queue_entry_of db2 ?k
             = Some (updated_entry ?now ?q1 PublishStatus.FAILED (Some (error_str e)) None)"
      and o2: "\<forall>k'. k' \<noteq> ?k \<longrightarrow> queue_entry_of db2 k' = queue_entry_of db1 k'"
      and s2: "same_ids db1 db2"
      by blast
    have pe: "publish_entry settings sv db q article = (Some e, db1)"
      using Inl u1 m1
      by (cases "pq_platform q") (simp_all add: publish_entry_def deliver_def Let_def)
    have "process_entry settings sv db q = Inr db2"
      by (simp add: process_entry_def a pe u2)
    then show ?thesis
      using u1 e1 e2 u2 o1 o2 same_ids_trans[OF s1 s2] Inl by auto
  next
    case (Inr result)
    from update_publish_status_ok[OF e1, of ?now COMPLETED None "Some result"]
    obtain db2 where
      u2: "update_publish_status ?now db1 ?k COMPLETED None (Some result) = Inr db2"
      and e2: "queue_entry_of db2 ?k
             = Some (updated_entry ?now ?q1 COMPLETED None (Some result))"
      and o2: "\<forall>k'. k' \<noteq> ?k \<longrightarrow> queue_entry_of db2 k' = queue_entry_of db1 k'"
      and s2: "same_ids db1 db2"
      by blast
    show ?thesis
    proof (cases "pq_platform q")
      case STRAPI
      from mark_article_published_ok[of ?now db2 "a_id article"] obtain db3 where
        m: "mark_article_published ?now db2 (a_id article) = Inr db3"
        and q3: "publish_queue db3 = publish_queue db2" and s3: "same_ids db2 db3"
        by blast
      have pe: "publish_entry settings sv db q article = (None, db3)"
        using Inr u1 u2 m STRAPI by (simp add: publish_entry_def deliver_def)
      have p: "process_entry settings sv db q = Inr db3"
        by (simp add: process_entry_def a pe)
      have e3: "queue_entry_of db3 k' = queue_entry_of db2 k'" for k'
        using q3 by (simp add: queue_entry_of_def)
      show ?thesis
        using u1 e1 p e2 o1 o2 e3 same_ids_trans[OF same_ids_trans[OF s1 s2] s3] Inr
        by auto
    next
      case INSTAGRAM
      have pe: "publish_entry settings sv db q article = (None, db2)"
        using Inr u1 u2 m1 INSTAGRAM by (simp add: publish_entry_def deliver_def Let_def)
      have p: "process_entry settings sv db q = Inr db2"
        by (simp add: process_entry_def a pe)
      show ?thesis
        using u1 e1 p e2 o1 o2 same_ids_trans[OF s1 s2] Inr by auto
    qed
  qed
qed

lemma process_entry_others:
  assumes "queue_entry_of db (pq_id q') \<noteq> None"
  shows "\<exists>db'. process_entry settings sv db q' = Inr db' \<and> same_ids db db'
           \<and> (\<forall>k. k \<noteq> pq_id q' \<longrightarrow> queue_entry_of db' k = queue_entry_of db k)"
proof (cases "find (\<lambda>a. a_id a = pq_article_id q') (articles db)")
  case None
  then show ?thesis by (simp add: process_entry_def)
next
  case (Some article)
  from assms obtain q0 where "queue_entry_of db (pq_id q') = Some q0" by blast
  from process_entry_steps[OF this Some, of sv settings] show ?thesis by blast
qed

lemma process_entries_others:
  assumes "\<forall>q'\<in>set qs. queue_entry_of db (pq_id q') \<noteq> None \<and> pq_id q' \<noteq> k"
  shows "\<exists>db'. process_entries settings sv db qs = Inr db' \<and> same_ids db db'
           \<and> queue_entry_of db' k = queue_entry_of db k"
  using assms
proof (induction qs arbitrary: db)
  case Nil
  then show ?case by simp
next
  case (Cons q' qs)
  from Cons.prems have "queue_entry_of db (pq_id q') \<noteq> None" and nk: "pq_id q' \<noteq> k"
    by simp_all
  from process_entry_others[OF this(1), of settings sv] obtain db1 where
    p: "process_entry settings sv db q' = Inr db1" and s: "same_ids db db1"
    and o: "\<forall>k. k \<noteq> pq_id q' \<longrightarrow> queue_entry_of db1 k = queue_entry_of db k"
    by blast
  have "\<forall>q''\<in>set qs. queue_entry_of db1 (pq_id q'') \<noteq> None \<and> pq_id q'' \<noteq> k"
    using Cons.prems same_ids_queue_entry[OF s] by simp
  from Cons.IH[OF this] obtain db' where
    "process_entries settings sv db1 qs = Inr db'" "same_ids db1 db'"
    "queue_entry_of db' k = queue_entry_of db1 k"
    by blast
  then show ?case
    using p s o nk same_ids_trans by (auto simp: same_ids_trans)
qed

lemma process_entries_append:
  "process_entries settings sv db (xs @ ys) =
     (case process_entries settings sv db xs of
        Inl e \<Rightarrow> Inl e
      | Inr db' \<Rightarrow> process_entries settings sv db' ys)"
  by (induction xs arbitrary: db) (auto split: sum.splits)

text \<open>
  Claim C1.  Let the queue ids be distinct (the primary key), and let an entry be among the
  pending entries that the drain loads, its article existing.  The drain processes the
  entries before it without touching it, so it is still pending when its iteration starts.
  The iteration first sets it to processing, with the retry count as it was, and then, by
  one more update, either to completed, when the publisher of its platform returned (retry
  count and error message unchanged, published time set), or to failed, when the
  publisher raised (retry count one higher, the message of the exception recorded).  The
  rest of the drain leaves the entry as the iteration left it, and the drain returns.
\<close>

theorem queue_entry_lifecycle:
  assumes "distinct (map pq_id (publish_queue db))"
      and "q \<in> set (get_pending_publications db None)"
      and "article_of db (pq_article_id q) \<noteq> None"
  shows "\<exists>before after db0 article db1 q1 db2 q2 db3.
           get_pending_publications db None = before @ q # after
         \<and> process_entries settings sv db before = Inr db0
         \<and> queue_entry_of db0 (pq_id q) = Some q \<and> pq_status q = PENDING
         \<and> article_of db0 (pq_article_id q) = Some article
         \<and> update_publish_status (sv_utcnow sv) db0 (pq_id q) PROCESSING None None = Inr db1
         \<and> queue_entry_of db1 (pq_id q) = Some q1
         \<and> pq_status q1 = PROCESSING \<and> pq_retry_count q1 = pq_retry_count q
         \<and> process_entry settings sv db0 q = Inr db2
         \<and> queue_entry_of db2 (pq_id q) = Some q2
         \<and> ((\<exists>result. deliver settings sv db0 q article = Inr result
                \<and> pq_status q2 = COMPLETED
                \<and> pq_retry_count q2 = pq_retry_count q
                \<and> pq_error_message q2 = pq_error_message q
                \<and> pq_published_time q2 = Some (sv_utcnow sv))
              \<or> (\<exists>e. deliver settings sv db0 q article = Inl e
                \<and> pq_status q2 = PublishStatus.FAILED
                \<and> pq_retry_count q2 = pq_retry_count q + 1
                \<and> pq_error_message q2 = Some (error_str e)
                \<and> update_publish_status (sv_utcnow sv) db1 (pq_id q) PublishStatus.FAILED
                      (Some (error_str e)) None = Inr db2))
         \<and> process_entries settings sv db2 after = Inr db3
         \<and> process_publish_queue settings sv db = Inr db3
         \<and> queue_entry_of db3 (pq_id q) = Some q2"
proof -
  let ?now = "sv_utcnow sv" and ?k = "pq_id q"
  let ?pending = "get_pending_publications db None"
  have pend: "?pending = filter (\<lambda>q. pq_status q = PENDING) (publish_queue db)"
    by (simp add: get_pending_publications_def)
  from assms(2) have qin: "q \<in> set (publish_queue db)" and qp: "pq_status q = PENDING"
    unfolding pend by simp_all
  have dp: "distinct (map pq_id ?pending)"
    unfolding pend using assms(1) by (rule distinct_map_filter)
  from assms(2) obtain before after where split: "?pending = before @ q # after"
    by (meson split_list)
  have ids: "\<forall>q'\<in>set before \<union> set after. pq_id q' \<noteq> ?k"
    using dp unfolding split by (auto simp: image_iff)
  have inq: "\<forall>q'\<in>set before \<union> set after. q' \<in> set (publish_queue db)"
  proof
    fix q' assume "q' \<in> set before \<union> set after"
    then have "q' \<in> set ?pending" unfolding split by auto
    then show "q' \<in> set (publish_queue db)" unfolding pend by simp
  qed
  have ex: "\<forall>q'\<in>set before \<union> set after. queue_entry_of db (pq_id q') \<noteq> None"
    using inq unfolding queue_entry_of_def find_mem_iff by blast
  have e0: "queue_entry_of db ?k = Some q"
    unfolding queue_entry_of_def using find_distinct_key[OF assms(1) qin] .
  from process_entries_others[of before db ?k settings sv] ex ids obtain db0 where
    p0: "process_entries settings sv db before = Inr db0" and s0: "same_ids db db0"
    and k0: "queue_entry_of db0 ?k = queue_entry_of db ?k"
    by auto
  from same_ids_article[OF s0] assms(3) obtain article where
    a0: "article_of db0 (pq_article_id q) = Some article"
    by auto
  then have a0': "find (\<lambda>a. a_id a = pq_article_id q) (articles db0) = Some article"
    by (simp add: article_of_def)
  from k0 e0 have q0: "queue_entry_of db0 ?k = Some q" by simp
  let ?q1 = "updated_entry ?now q PROCESSING None None"
  from process_entry_steps[OF q0 a0', of sv settings] obtain db1 db2 where
    u1: "update_publish_status ?now db0 ?k PROCESSING None None = Inr db1"
    and e1: "queue_entry_of db1 ?k = Some ?q1"
    and p2: "process_entry settings sv db0 q = Inr db2"
    and s2: "same_ids db0 db2"
    and ok: "\<forall>result. deliver settings sv db0 q article = Inr result \<longrightarrow>
               queue_entry_of db2 ?k = Some (updated_entry ?now ?q1 COMPLETED None (Some result))"
    and ko: "\<forall>e. deliver settings sv db0 q article = Inl e \<longrightarrow>
               queue_entry_of db2 ?k
                 = Some (updated_entry ?now ?q1 PublishStatus.FAILED (Some (error_str e)) None)
               \<and> update_publish_status ?now db1 ?k PublishStatus.FAILED
                     (Some (error_str e)) None = Inr db2"
    by blast
  have f1: "pq_status ?q1 = PROCESSING \<and> pq_retry_count ?q1 = pq_retry_count q"
    by (simp add: updated_entry_fields)
  have ex2: "\<forall>q'\<in>set after. queue_entry_of db2 (pq_id q') \<noteq> None \<and> pq_id q' \<noteq> ?k"
    using ex ids same_ids_queue_entry[OF same_ids_trans[OF s0 s2]] by simp
  from process_entries_others[OF ex2, of settings sv] obtain db3 where
    p3: "process_entries settings sv db2 after = Inr db3"
    and k3: "queue_entry_of db3 ?k = queue_entry_of db2 ?k"
    by blast
  have "process_entries settings sv db ?pending = Inr db3"
    unfolding split by (simp add: process_entries_append p0 p2 p3)
  moreover have "?pending \<noteq> []" unfolding split by simp
  ultimately have pq: "process_publish_queue settings sv db = Inr db3"
    by (simp add: process_publish_queue_def Let_def)
  obtain q2 where e2: "queue_entry_of db2 ?k = Some q2"
    and outcome: "(\<exists>result. deliver settings sv db0 q article = Inr result
                \<and> pq_status q2 = COMPLETED
                \<and> pq_retry_count q2 = pq_retry_count q
                \<and> pq_error_message q2 = pq_error_message q
                \<and> pq_published_time q2 = Some ?now)
              \<or> (\<exists>e. deliver settings sv db0 q article = Inl e
                \<and> pq_status q2 = PublishStatus.FAILED
                \<and> pq_retry_count q2 = pq_retry_count q + 1
                \<and> pq_error_message q2 = Some (error_str e)
                \<and> update_publish_status ?now db1 ?k PublishStatus.FAILED
                      (Some (error_str e)) None = Inr db2)"
  proof (cases "deliver settings sv db0 q article")
    case (Inl e)
    with ko have "queue_entry_of db2 ?k
                 = Some (updated_entry ?now ?q1 PublishStatus.FAILED (Some (error_str e)) None)"
      and "update_publish_status ?now db1 ?k PublishStatus.FAILED
                     (Some (error_str e)) None = Inr db2"
      by blast+
    with Inl that[of "updated_entry ?now ?q1 PublishStatus.FAILED (Some (error_str e)) None"]
    show ?thesis by (simp add: updated_entry_fields)
  next
    case (Inr result)
    with ok have "queue_entry_of db2 ?k
                 = Some (updated_entry ?now ?q1 COMPLETED None (Some result))"
      by blast
    with Inr that[of "updated_entry ?now ?q1 COMPLETED None (Some result)"]
    show ?thesis by (simp add: updated_entry_fields)
  qed
  from split p0 q0 qp a0 u1 e1 f1 p2 e2 outcome p3 pq k3
  show ?thesis by (metis (no_types, lifting))
qed

theorem queue_entry_lifecycle_witness:
  "distinct (map pq_id (publish_queue queue_store))
   \<and> queue_entry_social \<in> set (get_pending_publications queue_store None)
   \<and> article_of queue_store (pq_article_id queue_entry_social) = Some saved_article
   \<and> (\<exists>db3 q2. process_publish_queue example_settings mixed_services queue_store = Inr db3
         \<and> queue_entry_of db3 (pq_id queue_entry_social) = Some q2
         \<and> (pq_status q2 = COMPLETED \<or> pq_status q2 = PublishStatus.FAILED))
   \<and> map_sum id (\<lambda>db. map pq_status (publish_queue db))
         (process_publish_queue example_settings mixed_services queue_store)
       = Inr [COMPLETED, PublishStatus.FAILED]
   \<and> map_sum id (\<lambda>db. map pq_retry_count (publish_queue db))
         (process_publish_queue example_settings mixed_services queue_store)
       = Inr [0, 1]
   \<and> map_sum id (\<lambda>db. map pq_error_message (publish_queue db))
         (process_publish_queue example_settings mixed_services queue_store)
       = Inr [None, Some ''login failed'']
   \<and> map_sum id (\<lambda>db. map pq_published_time (publish_queue db))
         (process_publish_queue example_settings mixed_services queue_store)
       = Inr [Some 1000, None]
   \<and> map_sum id (\<lambda>db. map a_status (articles db))
         (process_publish_queue example_settings mixed_services queue_store)
       = Inr [PUBLISHED]"
proof -
  have d: "distinct (map pq_id (publish_queue queue_store))"
    by (simp add: queue_store_def queue_entry_cms_def queue_entry_social_def)
  have m: "queue_entry_social \<in> set (get_pending_publications queue_store None)"
    by (simp add: get_pending_publications_def queue_store_def queue_entry_cms_def
          queue_entry_social_def)
  have a: "article_of queue_store (pq_article_id queue_entry_social) = Some saved_article"
    by (simp add: article_of_def queue_store_def saved_store_def saved_article_def
          queue_entry_social_def)
  then have a': "article_of queue_store (pq_article_id queue_entry_social) \<noteq> None"
    by simp
  from queue_entry_lifecycle[OF d m a', of example_settings mixed_services]
  have 1: "\<exists>db3 q2. process_publish_queue example_settings mixed_services queue_store = Inr db3
         \<and> queue_entry_of db3 (pq_id queue_entry_social) = Some q2
         \<and> (pq_status q2 = COMPLETED \<or> pq_status q2 = PublishStatus.FAILED)"
    by blast
  have 2: "map_sum id (\<lambda>db. map pq_status (publish_queue db))
         (process_publish_queue example_settings mixed_services queue_store)
       = Inr [COMPLETED, PublishStatus.FAILED]"
    by code_simp
  have 3: "map_sum id (\<lambda>db. map pq_retry_count (publish_queue db))
         (process_publish_queue example_settings mixed_services queue_store)
       = Inr [0, 1]"
    by code_simp
  have 4: "map_sum id (\<lambda>db. map pq_error_message (publish_queue db))
         (process_publish_queue example_settings mixed_services queue_store)
       = Inr [None, Some ''login failed'']"
    by code_simp
  have 5: "map_sum id (\<lambda>db. map pq_published_time (publish_queue db))
         (process_publish_queue example_settings mixed_services queue_store)
       = Inr [Some 1000, None]"
    by code_simp
  have 6: "map_sum id (\<lambda>db. map a_status (articles db))
         (process_publish_queue example_settings mixed_services queue_store)
       = Inr [PUBLISHED]"
    by code_simp
  from d m a 1 2 3 4 5 6 show ?thesis by blast
qed


section \<open>Response parser: strings\<close>

lemma starts_with_append: "starts_with p (p @ s)"
  by (induction p) auto

lemma starts_with_split: "starts_with p s \<Longrightarrow> s = p @ drop (length p) s"
  by (induction p s rule: starts_with.induct) auto

lemma contains_find_first: "contains sep s \<longleftrightarrow> find_first sep s \<noteq> None"
  by (induction s) (auto split: option.splits)

lemma find_first_split:
  "find_first sep s = Some (a, b) \<Longrightarrow> s = a @ sep @ b"
proof (induction s arbitrary: a)
  case Nil
  then show ?case by (auto split: if_splits)
next
  case (Cons c cs)
  show ?case
  proof (cases "starts_with sep (c # cs)")
    case True
    then show ?thesis using Cons.prems starts_with_split[OF True] by simp
  next
    case False
    then obtain a' where "find_first sep cs = Some (a', b)" "a = c # a'"
      using Cons.prems by (auto split: option.splits)
    then show ?thesis using Cons.IH by simp
  qed
qed

lemma split_on_nonempty: "split_on sep s \<noteq> []"
  by (subst split_on.simps) (auto split: option.splits)



lemma item0_split_on: "\<exists>x. item0 (split_on sep s) = Inr x"
  using split_on_nonempty[of sep s] by (cases "split_on sep s") (auto simp: item0_def)

lemma split_response_total: "\<exists>article_content metadata_section.
    split_response response_text = Inr (article_content, metadata_section)"
proof (cases "contains ''---METADATA---'' response_text")
  case True
  then obtain a b where "find_first ''---METADATA---'' response_text = Some (a, b)"
    unfolding contains_find_first by auto
  then have "unpack2 (split_once ''---METADATA---'' response_text) = Inr (a, b)"
    by (simp add: split_once_def unpack2_def)
  moreover obtain x where "item0 (split_on ''---END_METADATA---'' b) = Inr x"
    using item0_split_on by blast
  ultimately show ?thesis using True by (simp add: split_response_def)
next
  case False
  then show ?thesis by (simp add: split_response_def)
qed

lemma extract_title_total:
  "\<exists>title rest. extract_title sv article_content = Inr (title, rest)"
proof (cases "sv_re_search sv TITLE_RE article_content")
  case None
  obtain x where "item0 (split_on [CHR 0x0A] article_content) = Inr x"
    using item0_split_on by blast
  then show ?thesis
    using None split_on_nonempty[of "[CHR 0x0A]" article_content]
    by (simp add: extract_title_def Let_def)
next
  case (Some g)
  then show ?thesis by (cases g) (simp add: extract_title_def)
qed

lemma extract_summary_total: "\<exists>summary. extract_summary sv article_content = Inr summary"
proof (cases "sv_re_search sv SUMMARY_RE article_content")
  case None
  show ?thesis
  proof (cases "filter (\<lambda>p. strip p \<noteq> []) (split_on [CHR 0x0A, CHR 0x0A] article_content)")
    case Nil
    then show ?thesis using None by (simp add: extract_summary_def Let_def)
  next
    case (Cons p ps)
    then show ?thesis using None by (simp add: extract_summary_def Let_def item0_def)
  qed
next
  case (Some g)
  then show ?thesis by (cases g) (simp add: extract_summary_def)
qed

lemma parse_metadata_items:
  "\<exists>seo category instagram.
     parse_metadata sv metadata_section summary =
       [(''seo_description'', PStr seo),
        (''keywords'', PList (if metadata_section \<noteq> [] then parse_keywords metadata_section else [])),
        (''entities'', PJson (if metadata_section \<noteq> [] then parse_entities sv metadata_section
                              else JObj [])),
        (''category'', PStr category),
        (''instagram_summary'', PStr instagram)]"
  by (simp add: parse_metadata_def dict_set_def Let_def)

section \<open>Response parser: totality\<close>

text \<open>
  Claim C10.  For every response text, whatever the pattern searches and the JSON decoder
  do, \<^verbatim>\<open>parse_gemini_response\<close> returns a dictionary and raises nothing.  The dictionary
  has exactly the eight keys title, content, summary, seo\_description, keywords,
  entities, instagram\_summary and word\_count, with strings, a list of strings, a JSON
  value and a count that is not negative as values.  Without the metadata marker the
  metadata section is empty; and when the section is empty, or the pattern for the
  entities does not match in it, or the decoder raises on the match, the entities are the
  empty map.
\<close>

theorem parse_gemini_response_total:
  "\<exists>result article_content metadata_section title content summary seo kws entities
      instagram word_count.
     parse_gemini_response sv response_text = Inr result
     \<and> map fst result = result_keys
     \<and> result = [(''title'', PStr title), (''content'', PStr content),
                  (''summary'', PStr summary), (''seo_description'', PStr seo),
                  (''keywords'', PList kws), (''entities'', PJson entities),
                  (''instagram_summary'', PStr instagram), (''word_count'', PInt word_count)]
     \<and> 0 \<le> word_count
     \<and> split_response response_text = Inr (article_content, metadata_section)
     \<and> (\<not> contains ''---METADATA---'' response_text \<longrightarrow> metadata_section = [])
     \<and> (metadata_section = []
          \<or> sv_re_search sv ENTITIES_RE metadata_section = None
          \<or> (\<exists>g0 g1 e. sv_re_search sv ENTITIES_RE metadata_section = Some (g0, g1)
                \<and> sv_json_loads sv g1 = Inl e)
         \<longrightarrow> entities = JObj [])"
proof -
  obtain article_content metadata_section where
    sr: "split_response response_text = Inr (article_content, metadata_section)"
    using split_response_total by blast
  obtain title content where et: "extract_title sv article_content = Inr (title, content)"
    using extract_title_total by blast
  obtain summary where es: "extract_summary sv content = Inr summary"
    using extract_summary_total by blast
  obtain seo category instagram where
    pm: "parse_metadata sv metadata_section summary =
       [(''seo_description'', PStr seo),
        (''keywords'', PList (if metadata_section \<noteq> [] then parse_keywords metadata_section else [])),
        (''entities'', PJson (if metadata_section \<noteq> [] then parse_entities sv metadata_section
                              else JObj [])),
        (''category'', PStr category),
        (''instagram_summary'', PStr instagram)]"
    using parse_metadata_items by blast
  let ?kws = "if metadata_section \<noteq> [] then parse_keywords metadata_section else []"
  let ?ents = "if metadata_section \<noteq> [] then parse_entities sv metadata_section else JObj []"
  let ?wc = "int (length (split_ws [] content))"
  let ?result = "[(''title'', PStr title), (''content'', PStr content),
                  (''summary'', PStr summary), (''seo_description'', PStr seo),
                  (''keywords'', PList ?kws), (''entities'', PJson ?ents),
                  (''instagram_summary'', PStr instagram), (''word_count'', PInt ?wc)]"
  have p: "parse_gemini_response sv response_text = Inr ?result"
    by (simp add: parse_gemini_response_def sr et es pm Let_def dict_item_def)
  have k: "map fst ?result = result_keys"
    by (simp add: result_keys_def)
  have m: "\<not> contains ''---METADATA---'' response_text \<longrightarrow> metadata_section = []"
    using sr by (auto simp: split_response_def)
  have e: "metadata_section = []
          \<or> sv_re_search sv ENTITIES_RE metadata_section = None
          \<or> (\<exists>g0 g1 e. sv_re_search sv ENTITIES_RE metadata_section = Some (g0, g1)
                \<and> sv_json_loads sv g1 = Inl e)
         \<longrightarrow> ?ents = JObj []"
    by (auto simp: parse_entities_def)
  have w: "0 \<le> ?wc" by simp
  from p k w sr m e show ?thesis by blast
qed

theorem parse_gemini_response_total_witness:
  "parse_gemini_response example_services []
     = Inr [(''title'', PStr []), (''content'', PStr []), (''summary'', PStr []),
            (''seo_description'', PStr []), (''keywords'', PList []),
            (''entities'', PJson (JObj [])), (''instagram_summary'', PStr []),
            (''word_count'', PInt 0)]
   \<and> \<not> contains ''---METADATA---'' generated_text
   \<and> map_sum id (map fst) (parse_gemini_response pipeline_services generated_text)
       = Inr result_keys
   \<and> split_response entities_response
       = Inr (''Assessment'' @ [CHR 0x0A] @ ''Allied units hold joint drills.'' @ [CHR 0x0A],
              [CHR 0x0A] @ ''ENTITIES: {oops}'' @ [CHR 0x0A])
   \<and> sv_re_search entities_services ENTITIES_RE ([CHR 0x0A] @ ''ENTITIES: {oops}'' @ [CHR 0x0A])
       = Some (''ENTITIES: {oops}'', ''{oops}'')
   \<and> sv_json_loads entities_services ''{oops}''
       = Inl (ValueError ''Expecting property name enclosed in double quotes'')
   \<and> map_sum id (\<lambda>d. map_of d ''entities'') (parse_gemini_response entities_services entities_response)
       = Inr (Some (PJson (JObj [])))"
proof -
  have 1: "parse_gemini_response example_services []
     = Inr [(''title'', PStr []), (''content'', PStr []), (''summary'', PStr []),
            (''seo_description'', PStr []), (''keywords'', PList []),
            (''entities'', PJson (JObj [])), (''instagram_summary'', PStr []),
            (''word_count'', PInt 0)]"
    by code_simp
  have 2: "\<not> contains ''---METADATA---'' generated_text"
    by code_simp
  have 4: "split_response entities_response
       = Inr (''Assessment'' @ [CHR 0x0A] @ ''Allied units hold joint drills.'' @ [CHR 0x0A],
              [CHR 0x0A] @ ''ENTITIES: {oops}'' @ [CHR 0x0A])"
    by code_simp
  have 5: "sv_re_search entities_services ENTITIES_RE
             ([CHR 0x0A] @ ''ENTITIES: {oops}'' @ [CHR 0x0A])
       = Some (''ENTITIES: {oops}'', ''{oops}'')"
    by code_simp
  have 6: "sv_json_loads entities_services ''{oops}''
       = Inl (ValueError ''Expecting property name enclosed in double quotes'')"
    by (simp add: entities_services_def example_services_def)
  from parse_gemini_response_total[of pipeline_services generated_text]
  have 3: "map_sum id (map fst) (parse_gemini_response pipeline_services generated_text)
       = Inr result_keys"
    by auto
  from parse_gemini_response_total[of entities_services entities_response]
  obtain result article_content metadata_section title content summary seo kws entities
      instagram word_count where
    r: "parse_gemini_response entities_services entities_response = Inr result"
    and f: "result = [(''title'', PStr title), (''content'', PStr content),
                  (''summary'', PStr summary), (''seo_description'', PStr seo),
                  (''keywords'', PList kws), (''entities'', PJson entities),
                  (''instagram_summary'', PStr instagram), (''word_count'', PInt word_count)]"
    and s: "split_response entities_response = Inr (article_content, metadata_section)"
    and e: "metadata_section = []
          \<or> sv_re_search entities_services ENTITIES_RE metadata_section = None
          \<or> (\<exists>g0 g1 e. sv_re_search entities_services ENTITIES_RE metadata_section
                          = Some (g0, g1)
                \<and> sv_json_loads entities_services g1 = Inl e)
         \<longrightarrow> entities = JObj []"
    by blast
  from s 4 have "metadata_section = [CHR 0x0A] @ ''ENTITIES: {oops}'' @ [CHR 0x0A]"
    by simp
  with e 5 6 have "entities = JObj []"
    by blast
  with r f have 7: "map_sum id (\<lambda>d. map_of d ''entities'')
                      (parse_gemini_response entities_services entities_response)
       = Inr (Some (PJson (JObj [])))"
    by simp
  from 1 2 3 4 5 6 7 show ?thesis by blast
qed


section \<open>Response parser: keywords\<close>

















end
